theory Spec2Isabelle
  imports Complex_Main "HOL-Library.Char_ord" "HOL-Library.List_Lexorder"
begin

section \<open>JavaScript strings\<close>

text \<open>
  A JavaScript string is a sequence of UTF-16 code units and \<open>length\<close> counts them.
  The development works with \<^typ>\<open>string\<close>: every \<^typ>\<open>char\<close> stands for one code unit
  in the range 0..255 (Latin-1), so \<^const>\<open>length\<close> is the \<open>.length\<close> of the source.
\<close>

definition code_unit :: "char \<Rightarrow> nat" where
  "code_unit c = of_char c"

text \<open>The character class \<open>\s\<close> of a regular expression, and the characters \<open>trim()\<close>
  strips: TAB, LF, VT, FF, CR, SPACE and NBSP are the members below 256.\<close>

definition isWhitespace :: "char \<Rightarrow> bool" where
  "isWhitespace c = (code_unit c \<in> {9, 10, 11, 12, 13, 32, 160})"

definition isUpperAZ :: "char \<Rightarrow> bool" where
  "isUpperAZ c = (65 \<le> code_unit c \<and> code_unit c \<le> 90)"

definition isLowerAZ :: "char \<Rightarrow> bool" where
  "isLowerAZ c = (97 \<le> code_unit c \<and> code_unit c \<le> 122)"

definition isDigit :: "char \<Rightarrow> bool" where
  "isDigit c = (48 \<le> code_unit c \<and> code_unit c \<le> 57)"

text \<open>\<open>String.prototype.toLowerCase\<close> on code units below 256: \<open>A-Z\<close> and the
  Latin-1 capitals U+00C0..U+00DE (without the multiplication sign U+00D7) move up by 32.\<close>

definition lowerChar :: "char \<Rightarrow> char" where
  "lowerChar c =
     (let n = code_unit c
      in if (65 \<le> n \<and> n \<le> 90) \<or> (192 \<le> n \<and> n \<le> 222 \<and> n \<noteq> 215)
         then char_of (n + 32) else c)"

definition toLowerCase :: "string \<Rightarrow> string" where
  "toLowerCase s = map lowerChar s"

text \<open>\<open>String.prototype.toUpperCase\<close>: \<open>a-z\<close> and U+00E0..U+00FE (without the division
  sign U+00F7) move down by 32 and the sharp s becomes \<open>SS\<close>.  The micro sign U+00B5 and
  U+00FF have their capitals, U+039C and U+0178, outside the 8-bit range.  So an
  upper-cased text is a sequence of units, each an 8-bit code unit or one of these two
  capitals; upper-casing it once more changes the 8-bit units only.\<close>

datatype unit16 = Latin char | U039C | U0178

definition upperChar :: "char \<Rightarrow> unit16 list" where
  "upperChar c =
     (let n = code_unit c
      in if (97 \<le> n \<and> n \<le> 122) \<or> (224 \<le> n \<and> n \<le> 254 \<and> n \<noteq> 247)
         then [Latin (char_of (n - 32))]
         else if n = 223 then [Latin CHR ''S'', Latin CHR ''S'']
         else if n = 181 then [U039C]
         else if n = 255 then [U0178]
         else [Latin c])"

definition toUpperCase :: "string \<Rightarrow> unit16 list" where
  "toUpperCase s = concat (map upperChar s)"

fun upperUnit :: "unit16 \<Rightarrow> unit16 list" where
  "upperUnit (Latin c) = upperChar c"
| "upperUnit U039C = [U039C]"
| "upperUnit U0178 = [U0178]"

definition toUpperCase16 :: "unit16 list \<Rightarrow> unit16 list" where
  "toUpperCase16 s = concat (map upperUnit s)"

definition trim :: "string \<Rightarrow> string" where
  "trim s = rev (dropWhile isWhitespace (rev (dropWhile isWhitespace s)))"

fun startsWith :: "string \<Rightarrow> string \<Rightarrow> bool" where
  "startsWith s [] = True"
| "startsWith [] (p # ps) = False"
| "startsWith (c # cs) (p # ps) = (c = p \<and> startsWith cs ps)"

text \<open>\<open>s.includes(p)\<close>: \<open>p\<close> occurs in \<open>s\<close> as a contiguous substring.\<close>

fun includesStr :: "string \<Rightarrow> string \<Rightarrow> bool" where
  "includesStr [] p = (p = [])"
| "includesStr (c # cs) p = (startsWith (c # cs) p \<or> includesStr cs p)"

text \<open>\<open>s.replace(p, '')\<close> with a string pattern: the first occurrence of \<open>p\<close> is removed.\<close>

fun removeFirst :: "string \<Rightarrow> string \<Rightarrow> string" where
  "removeFirst p [] = []"
| "removeFirst p (c # cs) =
     (if startsWith (c # cs) p then drop (length p) (c # cs) else c # removeFirst p cs)"

section \<open>The database (db.js, in src/summary/summary.js)\<close>

text \<open>
  The tables of \<open>init()\<close> are lists of rows in insertion order, each with the counter of
  its \<open>AUTOINCREMENT\<close> key.  \<open>datetime('now')\<close> and \<open>CURRENT_TIMESTAMP\<close> have a resolution
  of one second: a timestamp is the number of seconds since the Unix epoch, and every
  function that reads the clock takes it as its argument \<open>now\<close>.  The clock itself is
  taken to read a date that SQLite can write (before the year 10000).  A nullable column
  is an option.  The table \<open>messages\<close> is not needed by what follows and is left out.
\<close>

record pending_row =
  p_id :: int
  p_phone :: string
  p_group_id :: string
  p_expected_answer :: "int option"
  p_captcha_code :: "unit16 list option"
  p_created_at :: nat
  p_expires_at :: nat

record verified_row =
  v_id :: int
  v_phone :: string
  v_hashed_phone :: string
  v_group_id :: string
  v_verified_at :: nat

record log_row =
  l_id :: int
  l_timestamp :: nat
  l_group_id :: string
  l_user_phone :: string
  l_hashed_phone :: string
  l_user_name :: "string option"
  l_message_body :: string
  l_violation_type :: string
  l_action_taken :: string
  l_admin_response :: "string option"
  l_category_scores :: string
  l_message_key :: "string option"
  l_restored :: int

record database =
  pending_verifications :: "pending_row list"
  pending_seq :: int
  verified_users :: "verified_row list"
  verified_seq :: int
  moderation_logs :: "log_row list"
  moderation_seq :: int

definition init :: database where
  "init = \<lparr>pending_verifications = [], pending_seq = 0,
           verified_users = [], verified_seq = 0,
           moderation_logs = [], moderation_seq = 0\<rparr>"

text \<open>
  \<open>datetime('now', '+' || ? || ' minutes')\<close>, with a whole number of minutes that is not
  negative.  The last date SQLite writes is 9999-12-31 23:59:59, second 253402300799 of
  the epoch; for a later instant \<open>datetime\<close> gives \<open>NULL\<close>.
\<close>

definition maxDatetime :: int where
  "maxDatetime = 253402300799"

definition datetimePlusMinutes :: "nat \<Rightarrow> nat \<Rightarrow> nat option" where
  "datetimePlusMinutes now minutes =
     (if int now + 60 * int minutes \<le> maxDatetime then Some (now + 60 * minutes) else None)"

text \<open>\<open>INSERT OR REPLACE\<close> first deletes the rows that conflict with the new one on a
  \<open>UNIQUE\<close> constraint: \<open>UNIQUE(phone, group_id)\<close> for \<open>pending_verifications\<close>.  The
  column \<open>expires_at\<close> is \<open>NOT NULL\<close> and has no default: when \<open>datetime\<close> gives \<open>NULL\<close>
  the statement fails, nothing is written, and \<open>stmt.run\<close> throws the error (\<open>Inl\<close>).\<close>

definition expiresAtNull :: string where
  "expiresAtNull = ''NOT NULL constraint failed: pending_verifications.expires_at''"

definition addPendingVerification ::
  "nat \<Rightarrow> database \<Rightarrow> string \<Rightarrow> string \<Rightarrow> int \<Rightarrow> nat \<Rightarrow> string + database" where
  "addPendingVerification now db phone groupId expectedAnswer timeoutMinutes =
     (case datetimePlusMinutes now timeoutMinutes of
        None \<Rightarrow> Inl expiresAtNull
      | Some expires \<Rightarrow>
          Inr (db\<lparr>pending_verifications :=
                filter (\<lambda>r. \<not> (p_phone r = phone \<and> p_group_id r = groupId))
                  (pending_verifications db)
                @ [\<lparr>p_id = pending_seq db + 1, p_phone = phone, p_group_id = groupId,
                     p_expected_answer = Some expectedAnswer, p_captcha_code = None,
                     p_created_at = now, p_expires_at = expires\<rparr>],
              pending_seq := pending_seq db + 1\<rparr>))"

text \<open>Without a code \<open>addPendingCaptcha\<close> logs an error and returns; nothing is written.\<close>

definition addPendingCaptcha ::
  "nat \<Rightarrow> database \<Rightarrow> string \<Rightarrow> string \<Rightarrow> string \<Rightarrow> nat \<Rightarrow> string + database" where
  "addPendingCaptcha now db phone groupId captchaCode timeoutMinutes =
     (if captchaCode = [] then Inr db
      else case datetimePlusMinutes now timeoutMinutes of
        None \<Rightarrow> Inl expiresAtNull
      | Some expires \<Rightarrow>
          Inr (db\<lparr>pending_verifications :=
                filter (\<lambda>r. \<not> (p_phone r = phone \<and> p_group_id r = groupId))
                  (pending_verifications db)
                @ [\<lparr>p_id = pending_seq db + 1, p_phone = phone, p_group_id = groupId,
                     p_expected_answer = Some 0, p_captcha_code = Some (toUpperCase captchaCode),
                     p_created_at = now, p_expires_at = expires\<rparr>],
              pending_seq := pending_seq db + 1\<rparr>))"

text \<open>\<open>stmt.get\<close> returns the first row of the result, or \<open>undefined\<close>.\<close>

definition getPendingVerification ::
  "nat \<Rightarrow> database \<Rightarrow> string \<Rightarrow> string \<Rightarrow> pending_row option" where
  "getPendingVerification now db phone groupId =
     find (\<lambda>r. p_phone r = phone \<and> p_group_id r = groupId \<and> p_expires_at r > now)
       (pending_verifications db)"

definition removePendingVerification :: "database \<Rightarrow> string \<Rightarrow> string \<Rightarrow> database" where
  "removePendingVerification db phone groupId =
     db\<lparr>pending_verifications :=
          filter (\<lambda>r. \<not> (p_phone r = phone \<and> p_group_id r = groupId)) (pending_verifications db)\<rparr>"

text \<open>In \<open>verified_users\<close> the only constraint is \<open>phone TEXT UNIQUE\<close>, so the rows that
  \<open>INSERT OR REPLACE\<close> deletes are those of the same phone, in whatever group.
  \<open>hashPhone\<close> (SHA-256 from the \<open>crypto\<close> module) is a parameter.\<close>

definition markUserVerified ::
  "(string \<Rightarrow> string) \<Rightarrow> nat \<Rightarrow> database \<Rightarrow> string \<Rightarrow> string \<Rightarrow> database" where
  "markUserVerified hashPhone now db phone groupId =
     db\<lparr>verified_users :=
          filter (\<lambda>r. v_phone r \<noteq> phone) (verified_users db)
          @ [\<lparr>v_id = verified_seq db + 1, v_phone = phone, v_hashed_phone = hashPhone phone,
               v_group_id = groupId, v_verified_at = now\<rparr>],
        verified_seq := verified_seq db + 1\<rparr>"

definition isUserVerified :: "database \<Rightarrow> string \<Rightarrow> string \<Rightarrow> bool" where
  "isUserVerified db phone groupId =
     (find (\<lambda>r. v_phone r = phone \<and> v_group_id r = groupId) (verified_users db) \<noteq> None)"

definition getExpiredVerifications :: "nat \<Rightarrow> database \<Rightarrow> pending_row list" where
  "getExpiredVerifications now db =
     filter (\<lambda>r. p_expires_at r \<le> now) (pending_verifications db)"

text \<open>Returns the number of deleted rows (\<open>result.changes\<close>) with the new state.\<close>

definition cleanupExpiredVerifications :: "nat \<Rightarrow> database \<Rightarrow> nat \<times> database" where
  "cleanupExpiredVerifications now db =
     (length (filter (\<lambda>r. p_expires_at r \<le> now) (pending_verifications db)),
      db\<lparr>pending_verifications :=
           filter (\<lambda>r. \<not> p_expires_at r \<le> now) (pending_verifications db)\<rparr>)"

text \<open>The ledger.  \<open>categoryScores\<close> and \<open>messageKey\<close> arrive as their JSON texts
  (\<open>JSON.stringify\<close> is not modelled); an absent \<open>categoryScores\<close> is stored as \<open>{}\<close>.\<close>

record moderation_data =
  d_groupId :: string
  d_userPhone :: string
  d_userName :: "string option"
  d_messageBody :: string
  d_violationType :: string
  d_actionTaken :: string
  d_categoryScores :: "string option"
  d_messageKey :: "string option"

definition logModeration ::
  "(string \<Rightarrow> string) \<Rightarrow> nat \<Rightarrow> database \<Rightarrow> moderation_data \<Rightarrow> int \<times> database" where
  "logModeration hashPhone now db d =
     (moderation_seq db + 1,
      db\<lparr>moderation_logs := moderation_logs db
          @ [\<lparr>l_id = moderation_seq db + 1, l_timestamp = now, l_group_id = d_groupId d,
               l_user_phone = d_userPhone d, l_hashed_phone = hashPhone (d_userPhone d),
               l_user_name =
                 (case d_userName d of None \<Rightarrow> None | Some n \<Rightarrow> if n = [] then None else Some n),
               l_message_body = d_messageBody d,
               l_violation_type = d_violationType d, l_action_taken = d_actionTaken d,
               l_admin_response = None,
               l_category_scores = (case d_categoryScores d of None \<Rightarrow> ''{}'' | Some j \<Rightarrow> j),
               l_message_key = d_messageKey d, l_restored = 0\<rparr>],
        moderation_seq := moderation_seq db + 1\<rparr>)"

definition getModerationLogById :: "database \<Rightarrow> int \<Rightarrow> log_row option" where
  "getModerationLogById db logId = find (\<lambda>r. l_id r = logId) (moderation_logs db)"

definition markMessageRestored :: "database \<Rightarrow> int \<Rightarrow> database" where
  "markMessageRestored db logId =
     db\<lparr>moderation_logs :=
          map (\<lambda>r. if l_id r = logId then r\<lparr>l_restored := 1\<rparr> else r) (moderation_logs db)\<rparr>"

definition updateModerationResponse :: "database \<Rightarrow> int \<Rightarrow> string \<Rightarrow> database" where
  "updateModerationResponse db logId response =
     db\<lparr>moderation_logs :=
          map (\<lambda>r. if l_id r = logId then r\<lparr>l_admin_response := Some response\<rparr> else r)
            (moderation_logs db)\<rparr>"

text \<open>\<open>DELETE FROM moderation_logs\<close> empties the table; the \<open>AUTOINCREMENT\<close> counter
  stays, so a deleted key is never given out again.\<close>

definition clearModerationLogs :: "database \<Rightarrow> nat \<times> database" where
  "clearModerationLogs db = (length (moderation_logs db), db\<lparr>moderation_logs := []\<rparr>)"

section \<open>The transport (Baileys socket)\<close>

text \<open>
  The socket is an external collaborator.  Each of its operations either throws
  (\<open>Inl\<close> with the error message) or returns (\<open>Inr\<close>); what it answers is a parameter of
  the model, and every call made is recorded, in order, in a list of \<open>call\<close>s.
  The texts of \<open>MESSAGES\<close> are localisation data: a notice is named by its language and
  its key.  The other message bodies are named by the values interpolated into them.
\<close>

datatype lang = En | Nl

datatype notice = Welcome nat | Success | Wrong | Timeout | AlreadyVerified

datatype content =
    Text lang notice
  | CaptchaImage string lang notice
  | RestoredMessage string string

record sock =
  groupMetadata :: "string \<Rightarrow> string + string"
  sendMessage :: "string \<Rightarrow> content \<Rightarrow> string + unit"
  groupParticipantsUpdate :: "string \<Rightarrow> string list \<Rightarrow> string \<Rightarrow> string + unit"

datatype call =
    GroupMetadata string
  | SendMessage string content
  | GroupParticipantsUpdate string "string list" string

section \<open>Verification (src/verification.js)\<close>

definition DUTCH_KEYWORDS :: "string list" where
  "DUTCH_KEYWORDS =
     [''nederland'', ''dutch'', ''nl'', ''holland'', ''vlaams'', ''belgie'', ''belgian'']"

definition jidToPhone :: "string \<Rightarrow> string" where
  "jidToPhone jid =
     (if jid = [] then []
      else takeWhile (\<lambda>c. c \<noteq> CHR '':'')
             (removeFirst ''@g.us'' (removeFirst ''@s.whatsapp.net'' jid)))"

definition detectLanguage :: "string \<Rightarrow> lang" where
  "detectLanguage groupName =
     (if list_ex (includesStr (toLowerCase groupName)) DUTCH_KEYWORDS then Nl else En)"

definition getMessages :: "string \<Rightarrow> notice \<Rightarrow> content" where
  "getMessages groupName = Text (detectLanguage groupName)"

text \<open>\<open>startVerification\<close>.  \<open>captcha.generateCaptcha\<close> is external: \<open>captcha\<close> is what it
  answers, a code with an image, or the error it throws, which is not caught here; nor
  is the error of \<open>db.addPendingCaptcha\<close>.  \<open>timeout\<close> is
  \<open>config.verificationTimeoutMinutes\<close>.  A failure to send is logged only.\<close>

definition startVerification ::
  "sock \<Rightarrow> nat \<Rightarrow> nat \<Rightarrow> (string + string \<times> string) \<Rightarrow> database
     \<Rightarrow> string \<Rightarrow> string \<Rightarrow> string \<Rightarrow> string + (database \<times> call list)" where
  "startVerification sk timeout now captcha db groupId groupName userJid =
     (let userPhone = jidToPhone userJid
      in if isUserVerified db userPhone groupId then Inr (db, [])
         else case captcha of
                Inl err \<Rightarrow> Inl err
              | Inr (code, img) \<Rightarrow>
                 (case addPendingCaptcha now db userPhone groupId code timeout of
                    Inl err \<Rightarrow> Inl err
                  | Inr db' \<Rightarrow>
                      Inr (db', [SendMessage groupId
                             (CaptchaImage img (detectLanguage groupName) (Welcome timeout))])))"

record answer_result =
  a_success :: bool
  a_message :: content
  a_phone :: string

text \<open>The test \<open>/^[A-Z0-9]{3,7}$/i\<close>.\<close>

definition looksLikeCaptcha :: "string \<Rightarrow> bool" where
  "looksLikeCaptcha s =
     (3 \<le> length s \<and> length s \<le> 7
      \<and> list_all (\<lambda>c. isUpperAZ c \<or> isLowerAZ c \<or> isDigit c) s)"

definition checkVerificationAnswer ::
  "(string \<Rightarrow> string) \<Rightarrow> nat \<Rightarrow> database \<Rightarrow> string \<Rightarrow> string \<Rightarrow> string \<Rightarrow> string
     \<Rightarrow> answer_result option \<times> database" where
  "checkVerificationAnswer hashPhone now db senderJid messageText groupId groupName =
     (let phone = jidToPhone senderJid
      in case getPendingVerification now db phone groupId of
           None \<Rightarrow> (None, db)
         | Some pending \<Rightarrow>
            (case p_captcha_code pending of
               None \<Rightarrow> (None, db)
             | Some captcha_code \<Rightarrow>
                 if captcha_code = [] then (None, db)
                 else
                   let messages = getMessages groupName;
                       userAnswer = toUpperCase (trim messageText);
                       expectedCode = toUpperCase16 captcha_code
                   in if userAnswer = expectedCode
                      then (Some \<lparr>a_success = True, a_message = messages Success, a_phone = phone\<rparr>,
                            markUserVerified hashPhone now
                              (removePendingVerification db phone groupId) phone groupId)
                      else if looksLikeCaptcha (trim messageText)
                      then (Some \<lparr>a_success = False, a_message = messages Wrong, a_phone = phone\<rparr>, db)
                      else (None, db)))"

text \<open>\<open>processExpiredVerifications\<close>.  The loop body for one expired record: the group
  name is asked for (the group id stands in when that fails), the timeout notice is sent,
  and one removal is attempted.  Every failure is caught and logged.\<close>

definition participantJid :: "string \<Rightarrow> string" where
  "participantJid ph = (if CHR ''@'' \<in> set ph then ph else ph @ ''@s.whatsapp.net'')"

record kicked_user =
  k_phone :: string
  k_groupId :: string

definition processOne :: "sock \<Rightarrow> pending_row \<Rightarrow> call list \<times> kicked_user list" where
  "processOne sk verification =
     (let gid = p_group_id verification;
          groupName = (case groupMetadata sk gid of Inl e \<Rightarrow> gid | Inr subject \<Rightarrow> subject);
          messages = getMessages groupName;
          jid = participantJid (p_phone verification)
      in ([GroupMetadata gid,
           SendMessage gid (messages Timeout),
           GroupParticipantsUpdate gid [jid] ''remove''],
          (case groupParticipantsUpdate sk gid [jid] ''remove'' of
             Inl e \<Rightarrow> []
           | Inr u \<Rightarrow> [\<lparr>k_phone = p_phone verification, k_groupId = gid\<rparr>])))"

fun processAll :: "sock \<Rightarrow> pending_row list \<Rightarrow> call list \<times> kicked_user list" where
  "processAll sk [] = ([], [])"
| "processAll sk (verification # rest) =
     (let (calls, kicked) = processOne sk verification;
          (calls', kicked') = processAll sk rest
      in (calls @ calls', kicked @ kicked'))"

text \<open>The expired records are read at \<open>now\<close>; the clean-up runs after the loop, which
  awaits the transport, at \<open>now'\<close>.\<close>

definition processExpiredVerifications ::
  "sock \<Rightarrow> nat \<Rightarrow> nat \<Rightarrow> database \<Rightarrow> kicked_user list \<times> call list \<times> database" where
  "processExpiredVerifications sk now now' db =
     (let expired = getExpiredVerifications now db;
          (calls, kicked) = processAll sk expired
      in (kicked, calls, snd (cleanupExpiredVerifications now' db)))"

fun isRemoval :: "call \<Rightarrow> bool" where
  "isRemoval (GroupParticipantsUpdate g js a) = (a = ''remove'')"
| "isRemoval (GroupMetadata g) = False"
| "isRemoval (SendMessage g c) = False"

section \<open>The restore endpoint (index.js, in src/moderation.js)\<close>

text \<open>
  \<open>app.post('/api/restore-message/:id')\<close>.  The global \<open>sock\<close> is \<open>null\<close> until the bot
  is connected (\<open>None\<close>); \<open>groupIdToName\<close> is the cache of group names; \<open>logId\<close> is
  \<open>parseInt(req.params.id)\<close>, with \<open>None\<close> for \<open>NaN\<close>.  The handler answers with
  \<open>res.json\<close>: \<open>{success: true, message}\<close> or \<open>{success: false, error}\<close>; the \<open>catch\<close>
  around its body turns the error thrown by \<open>sock.sendMessage\<close> into such an answer.
  The group name looked up first is used for the console only.
\<close>

datatype response = JsonSuccess string | JsonError string

definition getGroupNameFromConfig :: "(string \<rightharpoonup> string) \<Rightarrow> string \<Rightarrow> string" where
  "getGroupNameFromConfig groupIdToName groupId =
     (case groupIdToName groupId of
        None \<Rightarrow> groupId
      | Some name \<Rightarrow> if name = [] then groupId else name)"

definition maskedPhone :: "string \<Rightarrow> string" where
  "maskedPhone user_phone =
     (if length user_phone > 6
      then take 4 user_phone @ ''****'' @ drop (length user_phone - 2) user_phone
      else ''****'')"

definition displayName :: "log_row \<Rightarrow> string" where
  "displayName entry =
     (case l_user_name entry of
        None \<Rightarrow> maskedPhone (l_user_phone entry)
      | Some n \<Rightarrow> if n = [] then maskedPhone (l_user_phone entry) else n)"

definition restoredMessage :: "log_row \<Rightarrow> content" where
  "restoredMessage entry = RestoredMessage (displayName entry) (l_message_body entry)"

definition restoreMessage ::
  "sock option \<Rightarrow> (string \<rightharpoonup> string) \<Rightarrow> database \<Rightarrow> int option
     \<Rightarrow> response \<times> call list \<times> database" where
  "restoreMessage sk groupIdToName db logId =
     (case logId of
        None \<Rightarrow> (JsonError ''Message not found'', [], db)
      | Some i \<Rightarrow>
         (case getModerationLogById db i of
            None \<Rightarrow> (JsonError ''Message not found'', [], db)
          | Some entry \<Rightarrow>
              if l_restored entry \<noteq> 0 then (JsonError ''Message already restored'', [], db)
              else case sk of
                None \<Rightarrow> (JsonError ''Bot not connected'', [], db)
              | Some s \<Rightarrow>
                 (let lookups =
                        (if getGroupNameFromConfig groupIdToName (l_group_id entry) = l_group_id entry
                         then [GroupMetadata (l_group_id entry)] else []);
                      calls = lookups @ [SendMessage (l_group_id entry) (restoredMessage entry)]
                  in case sendMessage s (l_group_id entry) (restoredMessage entry) of
                       Inl err \<Rightarrow> (JsonError err, calls, db)
                     | Inr u \<Rightarrow>
                         (JsonSuccess ''Message restored successfully'', calls,
                          markMessageRestored db i))))"

text \<open>The operations that write the ledger, for statements about every sequence of them.\<close>

datatype ledger_op =
    LogModeration "string \<Rightarrow> string" nat moderation_data
  | MarkMessageRestored int
  | UpdateModerationResponse int string
  | ClearModerationLogs
  | RestoreMessage "sock option" "string \<rightharpoonup> string" "int option"

fun apply_op :: "database \<Rightarrow> ledger_op \<Rightarrow> database" where
  "apply_op db (LogModeration h now d) = snd (logModeration h now db d)"
| "apply_op db (MarkMessageRestored i) = markMessageRestored db i"
| "apply_op db (UpdateModerationResponse i response) = updateModerationResponse db i response"
| "apply_op db ClearModerationLogs = snd (clearModerationLogs db)"
| "apply_op db (RestoreMessage sk names logId) = snd (snd (restoreMessage sk names db logId))"

text \<open>Keys come from the \<open>AUTOINCREMENT\<close> counter: no row has a key beyond it.\<close>

definition ledger_wf :: "database \<Rightarrow> bool" where
  "ledger_wf db = list_all (\<lambda>r. l_id r \<le> moderation_seq db) (moderation_logs db)"

text \<open>Every row of key \<open>i\<close> still in the ledger has its \<open>restored\<close> flag set.\<close>

definition restoredAt :: "database \<Rightarrow> int \<Rightarrow> bool" where
  "restoredAt db i =
     list_all (\<lambda>r. l_restored r \<noteq> 0) (filter (\<lambda>r. l_id r = i) (moderation_logs db))"

section \<open>Heuristic spam detection (src/moderation.js, src/unnamed/part_000)\<close>

text \<open>\<open>SPAM_CONFIG\<close>.  \<open>maxCapsRatio\<close> is used through \<open>capsRatioExceeds\<close> below.\<close>

definition maxLinks :: nat where
  "maxLinks = 3"

definition minCapsLength :: nat where
  "minCapsLength = 10"

definition repeatThreshold :: nat where
  "repeatThreshold = 3"

definition repeatWindow :: int where
  "repeatWindow = 60000"

text \<open>
  The result objects.  \<open>v_type\<close> and \<open>v_severity\<close> are the fields \<open>type\<close> and
  \<open>severity\<close>; \<open>v_detail\<close> holds the values from which the reason text and the other
  fields of the object are built (the text itself is not modelled).
\<close>

datatype detail =
    LinkCount nat
  | CapsCount nat nat
  | RepeatCount nat
  | MatchedTopics "string list"
  | Categories bool "string list"
  | Topic string rat
  | Media string string rat

record verdict =
  v_type :: string
  v_severity :: string
  v_detail :: detail

text \<open>
  The repeat cache \<open>recentMessages\<close>, a \<open>Map\<close> from the key \<open>`${senderPhone}:${groupId}`\<close>
  to the last message.  \<open>Date.now()\<close> counts milliseconds; one call of \<open>checkSimpleSpam\<close>
  runs without interruption and reads the clock as \<open>now\<close>.
\<close>

record cache_entry =
  e_message :: string
  e_count :: nat
  e_lastTime :: int

type_synonym cache = "string \<rightharpoonup> cache_entry"

definition cleanRecentMessages :: "int \<Rightarrow> cache \<Rightarrow> cache" where
  "cleanRecentMessages now recentMessages =
     (\<lambda>key. case recentMessages key of
               None \<Rightarrow> None
             | Some d \<Rightarrow> if now - e_lastTime d > repeatWindow then None else Some d)"

text \<open>
  \<open>message.match(/https?:\/\/[^\s]+/gi)\<close>.  \<open>matchLink s\<close> is the attempt to match at the
  start of \<open>s\<close>: \<open>http\<close> in any case, an optional \<open>s\<close>, \<open>://\<close> and then the longest
  non-empty run of non-whitespace; it returns what follows the match.  With the flag
  \<open>g\<close> the search goes on after each match, and one position further where there is none.
\<close>

definition matchLink :: "string \<Rightarrow> string option" where
  "matchLink s =
     (if length s \<ge> 4 \<and> toLowerCase (take 4 s) = ''http''
      then let r = (if length s \<ge> 5 \<and> lowerChar (s ! 4) = CHR ''s'' then drop 5 s else drop 4 s)
           in if startsWith r ''://''
              then (case drop 3 r of
                      [] \<Rightarrow> None
                    | c # cs \<Rightarrow> if isWhitespace c then None
                               else Some (dropWhile (\<lambda>c. \<not> isWhitespace c) cs))
              else None
      else None)"

function countLinks :: "string \<Rightarrow> nat" where
  "countLinks [] = 0"
| "countLinks (c # cs) =
     (case matchLink (c # cs) of
        Some rest \<Rightarrow> Suc (countLinks rest)
      | None \<Rightarrow> countLinks cs)"
  by pat_completeness auto
termination
proof (relation "measure length")
  show "wf (measure length)" by simp
next
  fix c :: char and cs rest :: string
  assume m: "matchLink (c # cs) = Some rest"
  have shorter: "length t < length s" if "matchLink s = Some t" for s t
  proof -
    from that obtain n d ds where
      n: "drop n s = d # ds" "t = dropWhile (\<lambda>c. \<not> isWhitespace c) ds"
      by (auto simp: matchLink_def Let_def split: if_splits list.splits)
    have "length ds < length s"
      using arg_cong[OF n(1), of length] by simp
    then show ?thesis
      using length_dropWhile_le[of "\<lambda>c. \<not> isWhitespace c" ds] n(2) by simp
  qed
  show "(rest, c # cs) \<in> measure length"
    using shorter[OF m] by simp
next
  fix c :: char and cs :: string
  show "(cs, c # cs) \<in> measure length" by simp
qed

text \<open>\<open>message.replace(/[^a-zA-Z]/g, '')\<close> and the matches of \<open>/[A-Z]/g\<close> in it.\<close>

definition letters :: "string \<Rightarrow> string" where
  "letters message = filter (\<lambda>c. isUpperAZ c \<or> isLowerAZ c) message"

definition capitals :: "string \<Rightarrow> string" where
  "capitals message = filter isUpperAZ (letters message)"

text \<open>
  \<open>capsRatio > SPAM_CONFIG.maxCapsRatio\<close>, for \<open>capsRatio = caps / letters\<close> in IEEE
  double arithmetic.  The constant \<open>0.7\<close> is the double \<open>6305039478318694 / 2^53\<close>, with
  an even significand; the quotient is rounded to the nearest double, ties to even; so
  the rounded quotient is greater than the constant exactly when the exact quotient is
  above the midpoint between the constant and the next double,
  \<open>12610078956637389 / 2^54\<close>.
\<close>

definition capsRatioExceeds :: "nat \<Rightarrow> nat \<Rightarrow> bool" where
  "capsRatioExceeds caps n = (12610078956637389 * int n < 18014398509481984 * int caps)"

definition excessiveCaps :: "string \<Rightarrow> bool" where
  "excessiveCaps message =
     (length message \<ge> minCapsLength
      \<and> length (letters message) > 0
      \<and> capsRatioExceeds (length (capitals message)) (length (letters message)))"

definition cacheKey :: "string \<Rightarrow> string \<Rightarrow> string" where
  "cacheKey senderPhone groupId = senderPhone @ '':'' @ groupId"

definition checkSimpleSpam ::
  "int \<Rightarrow> cache \<Rightarrow> string \<Rightarrow> string \<Rightarrow> string \<Rightarrow> verdict option \<times> cache" where
  "checkSimpleSpam now recentMessages message senderPhone groupId =
     (if message = [] \<or> length message < 5 then (None, recentMessages)
      else if countLinks message > maxLinks
      then (Some \<lparr>v_type = ''excessive_links'', v_severity = ''medium'',
                  v_detail = LinkCount (countLinks message)\<rparr>, recentMessages)
      else if excessiveCaps message
      then (Some \<lparr>v_type = ''excessive_caps'', v_severity = ''low'',
                  v_detail = CapsCount (length (capitals message)) (length (letters message))\<rparr>,
            recentMessages)
      else
        let cleaned = cleanRecentMessages now recentMessages;
            key = cacheKey senderPhone groupId;
            messageHash = trim (toLowerCase message)
        in case cleaned key of
             Some d \<Rightarrow>
               if e_message d = messageHash
               then (if e_count d + 1 \<ge> repeatThreshold
                     then Some \<lparr>v_type = ''repeated_message'', v_severity = ''medium'',
                                v_detail = RepeatCount (e_count d + 1)\<rparr>
                     else None,
                     cleaned(key \<mapsto> d\<lparr>e_count := e_count d + 1, e_lastTime := now\<rparr>))
               else (None,
                     cleaned(key \<mapsto> \<lparr>e_message = messageHash, e_count = 1, e_lastTime = now\<rparr>))
           | None \<Rightarrow>
               (None,
                cleaned(key \<mapsto> \<lparr>e_message = messageHash, e_count = 1, e_lastTime = now\<rparr>)))"

section \<open>The classification services (OpenAI client)\<close>

text \<open>
  The services are external.  A request either throws (\<open>Inl\<close>) or answers (\<open>Inr\<close>).
  The moderation endpoint answers with \<open>results[0]\<close>: its \<open>flagged\<close>, its \<open>categories\<close> and
  its \<open>category_scores\<close>, in the order of \<open>Object.entries\<close>.  A chat completion answers
  with a text that \<open>JSON.parse\<close> either rejects (\<open>None\<close>) or turns into an object, of which
  the fields read by the code are kept.  A number is a double, taken as the rational it
  is, so that a comparison with \<open>0.75\<close>, which is a double, is exact; the constants \<open>0.7\<close>
  and \<open>0.6\<close> stand for the doubles next to them.
\<close>

record moderation_result =
  m_flagged :: bool
  m_categories :: "(string \<times> bool) list"
  m_category_scores :: "(string \<times> rat) list"

record topic_result =
  t_flagged :: bool
  t_topic :: string
  t_confidence :: rat

record media_result =
  g_flagged :: bool
  g_topic :: string
  g_description :: string
  g_confidence :: rat

record openai =
  moderations_create :: "string \<Rightarrow> string + moderation_result"
  chat_text :: "string \<Rightarrow> string + topic_result option"
  chat_vision :: "string list \<Rightarrow> string + media_result option"

definition double_0_7 :: rat where
  "double_0_7 = 3152519739159347 / 4503599627370496"

definition double_0_6 :: rat where
  "double_0_6 = 5404319552844595 / 9007199254740992"

section \<open>The moderation pipeline (src/moderation.js, src/unnamed/part_000)\<close>

text \<open>\<open>SENSITIVE_TOPICS\<close> of src/moderation.js.\<close>

definition SENSITIVE_TOPICS :: "string list" where
  "SENSITIVE_TOPICS =
     [''politics'', ''politicians'', ''political parties'', ''elections'', ''voting'', ''government'',
      ''religion'', ''religious'', ''god'', ''church'', ''mosque'', ''temple'', ''bible'', ''quran'',
      ''conversion'',
      ''caste'', ''reservation'', ''dalit'', ''brahmin'', ''caste system'', ''untouchable'',
      ''feminism'', ''feminist'', ''men's rights'', ''gender war'', ''patriarchy'', ''misogyny'',
      ''misandry'',
      ''lgbtq'', ''lgbt'', ''gay'', ''lesbian'', ''transgender'', ''trans rights'',
      ''same-sex marriage'', ''homosexual'',
      ''racism'', ''racist'', ''skin color'', ''north india'', ''south india'', ''regionalism'',
      ''ethnic'',
      ''vaccine'', ''covid'', ''corona'', ''5g'', ''conspiracy'', ''big pharma'', ''anti-vax'',
      ''microchip'',
      ''abortion'', ''pro-life'', ''pro-choice'', ''prolife'', ''prochoice'']"

text \<open>\<open>SENSITIVE_KEYWORDS_REGEX\<close> is the alternation of the topics, each escaped to a
  literal: it matches a text exactly when some topic occurs in it.\<close>

definition checkSensitiveKeywords :: "string \<Rightarrow> verdict option" where
  "checkSensitiveKeywords message =
     (if message = [] \<or> length message < 3 then None
      else let lowerMessage = toLowerCase message
           in if list_ex (includesStr lowerMessage) SENSITIVE_TOPICS
              then let matchedTopics =
                         filter (\<lambda>topic. includesStr lowerMessage (toLowerCase topic))
                           SENSITIVE_TOPICS
                   in if length matchedTopics > 0
                      then Some \<lparr>v_type = ''sensitive_topic'', v_severity = ''high'',
                                 v_detail = MatchedTopics matchedTopics\<rparr>
                      else None
              else None)"

text \<open>\<open>apiKey\<close> is \<open>config.openaiApiKey\<close>, empty when not configured.\<close>

definition checkSensitiveContent :: "string \<Rightarrow> openai \<Rightarrow> string \<Rightarrow> verdict option" where
  "checkSensitiveContent apiKey ai message =
     (if message = [] \<or> length message < 10 then None
      else if apiKey = [] then None
      else case chat_text ai message of
             Inl err \<Rightarrow> None
           | Inr None \<Rightarrow> None
           | Inr (Some result) \<Rightarrow>
               if t_flagged result \<and> t_confidence result > double_0_7
               then Some \<lparr>v_type = ''sensitive_topic'', v_severity = ''high'',
                          v_detail = Topic (t_topic result) (t_confidence result)\<rparr>
               else None)"

definition checkToxicContent :: "string \<Rightarrow> openai \<Rightarrow> string \<Rightarrow> verdict option" where
  "checkToxicContent apiKey ai message =
     (if message = [] \<or> length message < 3 then None
      else if apiKey = [] then None
      else case moderations_create ai message of
             Inl err \<Rightarrow> None
           | Inr result \<Rightarrow>
               if m_flagged result
               then Some \<lparr>v_type = ''toxic_content'', v_severity = ''high'',
                          v_detail = Categories True (map fst (filter snd (m_categories result)))\<rparr>
               else case find (\<lambda>(category, score). score > 0.75) (m_category_scores result) of
                      Some (category, score) \<Rightarrow>
                        Some \<lparr>v_type = ''toxic_content'', v_severity = ''medium'',
                              v_detail = Categories False [category]\<rparr>
                    | None \<Rightarrow> None)"

text \<open>
  \<open>moderateMessage\<close>.  Besides its result and the cache it returns the list of the
  checks it called, in the order of the calls.  The first definition is the function of
  src/moderation.js; the second is the one of the copy of that file with video analysis
  (src/unnamed/part_000), where the keyword check is disabled.
\<close>

datatype stage =
    CheckSimpleSpam
  | CheckSensitiveKeywords
  | CheckToxicContent
  | CheckSensitiveContent

definition moderateMessage ::
  "string \<Rightarrow> openai \<Rightarrow> int \<Rightarrow> cache \<Rightarrow> string \<Rightarrow> string \<Rightarrow> string
     \<Rightarrow> verdict option \<times> stage list \<times> cache" where
  "moderateMessage apiKey ai now recentMessages message senderPhone groupId =
     (let (spamResult, recentMessages') =
            checkSimpleSpam now recentMessages message senderPhone groupId
      in if spamResult \<noteq> None then (spamResult, [CheckSimpleSpam], recentMessages')
      else let keywordResult = checkSensitiveKeywords message
      in if keywordResult \<noteq> None
         then (keywordResult, [CheckSimpleSpam, CheckSensitiveKeywords], recentMessages')
      else let toxicResult = checkToxicContent apiKey ai message
      in if toxicResult \<noteq> None
         then (toxicResult, [CheckSimpleSpam, CheckSensitiveKeywords, CheckToxicContent],
               recentMessages')
      else if length message > 20
         then (checkSensitiveContent apiKey ai message,
               [CheckSimpleSpam, CheckSensitiveKeywords, CheckToxicContent, CheckSensitiveContent],
               recentMessages')
      else (None, [CheckSimpleSpam, CheckSensitiveKeywords, CheckToxicContent], recentMessages'))"

definition moderateMessage2 ::
  "string \<Rightarrow> openai \<Rightarrow> int \<Rightarrow> cache \<Rightarrow> string \<Rightarrow> string \<Rightarrow> string
     \<Rightarrow> verdict option \<times> stage list \<times> cache" where
  "moderateMessage2 apiKey ai now recentMessages message senderPhone groupId =
     (let (spamResult, recentMessages') =
            checkSimpleSpam now recentMessages message senderPhone groupId
      in if spamResult \<noteq> None then (spamResult, [CheckSimpleSpam], recentMessages')
      else let toxicResult = checkToxicContent apiKey ai message
      in if toxicResult \<noteq> None
         then (toxicResult, [CheckSimpleSpam, CheckToxicContent], recentMessages')
      else if length message > 20
         then (checkSensitiveContent apiKey ai message,
               [CheckSimpleSpam, CheckToxicContent, CheckSensitiveContent], recentMessages')
      else (None, [CheckSimpleSpam, CheckToxicContent], recentMessages'))"

text \<open>
  The state machine of the specification: the stages of a list are evaluated in order,
  and the first verdict ends the run.  \<open>stageVerdict\<close> is what one stage answers.
\<close>

fun firstVerdict :: "(stage \<Rightarrow> verdict option) \<Rightarrow> stage list \<Rightarrow> verdict option \<times> stage list" where
  "firstVerdict f [] = (None, [])"
| "firstVerdict f (s # ss) =
     (case f s of
        Some v \<Rightarrow> (Some v, [s])
      | None \<Rightarrow> (fst (firstVerdict f ss), s # snd (firstVerdict f ss)))"

fun stageVerdict ::
  "string \<Rightarrow> openai \<Rightarrow> int \<Rightarrow> cache \<Rightarrow> string \<Rightarrow> string \<Rightarrow> string \<Rightarrow> stage
     \<Rightarrow> verdict option" where
  "stageVerdict apiKey ai now c message senderPhone groupId CheckSimpleSpam =
     fst (checkSimpleSpam now c message senderPhone groupId)"
| "stageVerdict apiKey ai now c message senderPhone groupId CheckSensitiveKeywords =
     checkSensitiveKeywords message"
| "stageVerdict apiKey ai now c message senderPhone groupId CheckToxicContent =
     checkToxicContent apiKey ai message"
| "stageVerdict apiKey ai now c message senderPhone groupId CheckSensitiveContent =
     checkSensitiveContent apiKey ai message"

text \<open>The stages of the text path, for a message of the given length: as the
  specification lists them, and with the keyword check of src/moderation.js.\<close>

definition textStages :: "string \<Rightarrow> stage list" where
  "textStages message =
     [CheckSimpleSpam, CheckToxicContent]
     @ (if length message > 20 then [CheckSensitiveContent] else [])"

definition textStagesWithKeywords :: "string \<Rightarrow> stage list" where
  "textStagesWithKeywords message =
     [CheckSimpleSpam, CheckSensitiveKeywords, CheckToxicContent]
     @ (if length message > 20 then [CheckSensitiveContent] else [])"

section \<open>Media frame extraction (src/unnamed/part_000)\<close>

text \<open>
  The temporary directory is a list of files, each a name with its content.  The
  operations of \<open>fs\<close> used by the extractor are total on it (\<open>readFileSync\<close> and
  \<open>unlinkSync\<close> are only called on a file that \<open>existsSync\<close> has seen);
  \<open>writeFileSync\<close> may throw, which is a parameter of the extractor.  \<open>readdirSync\<close>
  lists the names in the order of the file system, which is a parameter too: \<open>order\<close>
  rearranges the names of the files.
\<close>

type_synonym buffer = string

type_synonym tmpdir = "(string \<times> buffer) list"

definition existsSync :: "tmpdir \<Rightarrow> string \<Rightarrow> bool" where
  "existsSync dir name = (map_of dir name \<noteq> None)"

definition readFileSync :: "tmpdir \<Rightarrow> string \<Rightarrow> buffer option" where
  "readFileSync dir name = map_of dir name"

definition unlinkSync :: "tmpdir \<Rightarrow> string \<Rightarrow> tmpdir" where
  "unlinkSync dir name = filter (\<lambda>(n, b). n \<noteq> name) dir"

definition writeFileSync :: "tmpdir \<Rightarrow> string \<Rightarrow> buffer \<Rightarrow> tmpdir" where
  "writeFileSync dir name content =
     (if existsSync dir name
      then map (\<lambda>(n, b). if n = name then (n, content) else (n, b)) dir
      else dir @ [(name, content)])"

definition readdirSync :: "(string list \<Rightarrow> string list) \<Rightarrow> tmpdir \<Rightarrow> string list" where
  "readdirSync order dir = order (map fst dir)"

definition endsWith :: "string \<Rightarrow> string \<Rightarrow> bool" where
  "endsWith s p = startsWith (rev s) (rev p)"

text \<open>A number in a template string: the decimal digits of a non-negative integer.\<close>

function decimal :: "int \<Rightarrow> string" where
  "decimal n =
     (if n < 10 then [char_of (48 + nat n)]
      else decimal (n div 10) @ [char_of (48 + nat (n mod 10))])"
  by pat_completeness auto
termination
  by (relation "measure nat") auto

declare decimal.simps [simp del]

text \<open>
  \<open>ffprobe\<close> and \<open>ffmpeg\<close> are external programs.  \<open>ffprobe\<close> answers with the duration
  (0 when the metadata has none) or with an error.  A run of \<open>ffmpeg\<close> on the input
  writes frames to the output pattern, \<open>%d\<close> counting from 1, and ends with the event
  \<open>end\<close> or with the event \<open>error\<close>, before which it may have written some frames.  The
  filter expression of a run is computed from the duration and the number of frames; the
  run is named by the way it samples and by these two values.  \<open>dirOrder\<close> is the order
  in which the file system lists a directory.
\<close>

datatype sampling =
    AtTimestamps rat nat
  | FixedInterval rat nat
  | EveryFifthFrame nat

record media_tools =
  writeError :: "string option"
  ffprobe :: "buffer \<Rightarrow> string + rat"
  ffmpeg :: "sampling \<Rightarrow> buffer \<Rightarrow> buffer list \<times> string option"
  dirOrder :: "string list \<Rightarrow> string list"

definition writeFrames :: "(nat \<Rightarrow> string) \<Rightarrow> buffer list \<Rightarrow> tmpdir \<Rightarrow> tmpdir" where
  "writeFrames pattern frames dir =
     fold (\<lambda>(i, frame) d. writeFileSync d (pattern i) frame)
       (zip [1 ..< Suc (length frames)] frames) dir"

text \<open>The loop \<open>for (const file of files)\<close>: a file that exists is read, pushed to the
  result and unlinked.\<close>

fun readAndUnlink :: "string list \<Rightarrow> tmpdir \<Rightarrow> buffer list \<times> tmpdir" where
  "readAndUnlink [] dir = ([], dir)"
| "readAndUnlink (file # files) dir =
     (case readFileSync dir file of
        None \<Rightarrow> readAndUnlink files dir
      | Some frameBuffer \<Rightarrow>
          (frameBuffer # fst (readAndUnlink files (unlinkSync dir file)),
           snd (readAndUnlink files (unlinkSync dir file))))"

definition cleanUp :: "tmpdir \<Rightarrow> string \<Rightarrow> tmpdir" where
  "cleanUp dir path = (if existsSync dir path then unlinkSync dir path else dir)"

text \<open>
  \<open>extractVideoFrames\<close>.  \<open>t\<close> and \<open>t'\<close> are the two readings of \<open>Date.now()\<close> that name
  the temporary video and the frames.  The result is the error the function throws
  (\<open>Inl\<close>) or the frames it returns (\<open>Inr\<close>), with the directory it leaves behind.
\<close>

definition tempVideoPath :: "int \<Rightarrow> string" where
  "tempVideoPath t = ''video_'' @ decimal t @ ''.mp4''"

definition framePattern :: "int \<Rightarrow> nat \<Rightarrow> string" where
  "framePattern t' i = ''frame_'' @ decimal t' @ ''_'' @ decimal (int i) @ ''.jpg''"

definition frameFiles :: "(string list \<Rightarrow> string list) \<Rightarrow> tmpdir \<Rightarrow> string list" where
  "frameFiles order dir =
     filter (\<lambda>f. startsWith f ''frame_'' \<and> endsWith f ''.jpg'') (readdirSync order dir)"

text \<open>The loop that reads the frames scans the directory in its first round and then
  breaks; with \<open>numFrames = 0\<close> it has no round.\<close>

definition readVideoFrames ::
  "(string list \<Rightarrow> string list) \<Rightarrow> tmpdir \<Rightarrow> string \<Rightarrow> nat
     \<Rightarrow> (string + buffer list) \<times> tmpdir" where
  "readVideoFrames order dir video numFrames =
     (if 1 \<le> numFrames
      then let (frames, dir') = readAndUnlink (frameFiles order dir) dir
           in (Inr frames, cleanUp dir' video)
      else (Inr [], cleanUp dir video))"

definition extractVideoFrames ::
  "media_tools \<Rightarrow> int \<Rightarrow> int \<Rightarrow> tmpdir \<Rightarrow> buffer \<Rightarrow> nat \<Rightarrow> (string + buffer list) \<times> tmpdir" where
  "extractVideoFrames tools t t' dir videoBuffer numFrames =
     (case writeError tools of
        Some err \<Rightarrow> (Inl err, cleanUp dir (tempVideoPath t))
      | None \<Rightarrow>
         (let dir1 = writeFileSync dir (tempVideoPath t) videoBuffer
          in case ffprobe tools videoBuffer of
               Inl err \<Rightarrow> (Inl err, cleanUp dir1 (tempVideoPath t))
             | Inr d \<Rightarrow>
                (let duration = (if d = 0 then 5 else d);
                     (written, failed) = ffmpeg tools (AtTimestamps duration numFrames) videoBuffer;
                     dir2 = writeFrames (framePattern t') written dir1
                 in case failed of
                      None \<Rightarrow> readVideoFrames (dirOrder tools) dir2 (tempVideoPath t) numFrames
                    | Some err \<Rightarrow>
                       (let (written', failed') =
                              ffmpeg tools (FixedInterval duration numFrames) videoBuffer;
                            dir3 = writeFrames (framePattern t') written' dir2
                        in case failed' of
                             None \<Rightarrow>
                               readVideoFrames (dirOrder tools) dir3 (tempVideoPath t) numFrames
                           | Some err' \<Rightarrow> (Inl err', cleanUp dir3 (tempVideoPath t))))))"

text \<open>\<open>extractGifFrames\<close>: one run, no fallback; the frame files are sorted by name and
  the first \<open>numFrames\<close> of them are read.\<close>

definition tempGifPath :: "int \<Rightarrow> string" where
  "tempGifPath t = ''gif_'' @ decimal t @ ''.gif''"

definition gifFramePattern :: "int \<Rightarrow> nat \<Rightarrow> string" where
  "gifFramePattern t' i = ''gifframe_'' @ decimal t' @ ''_'' @ decimal (int i) @ ''.jpg''"

definition gifFrameFiles ::
  "(string list \<Rightarrow> string list) \<Rightarrow> tmpdir \<Rightarrow> nat \<Rightarrow> string list" where
  "gifFrameFiles order dir numFrames =
     take numFrames
       (sort (filter (\<lambda>f. startsWith f ''gifframe_'' \<and> endsWith f ''.jpg'')
                (readdirSync order dir)))"

text \<open>The directory at the moment \<open>ffmpeg\<close> has ended.\<close>

definition gifRun :: "media_tools \<Rightarrow> int \<Rightarrow> int \<Rightarrow> tmpdir \<Rightarrow> buffer \<Rightarrow> nat \<Rightarrow> tmpdir" where
  "gifRun tools t t' dir gifBuffer numFrames =
     writeFrames (gifFramePattern t') (fst (ffmpeg tools (EveryFifthFrame numFrames) gifBuffer))
       (writeFileSync dir (tempGifPath t) gifBuffer)"

definition extractGifFrames ::
  "media_tools \<Rightarrow> int \<Rightarrow> int \<Rightarrow> tmpdir \<Rightarrow> buffer \<Rightarrow> nat \<Rightarrow> (string + buffer list) \<times> tmpdir" where
  "extractGifFrames tools t t' dir gifBuffer numFrames =
     (case writeError tools of
        Some err \<Rightarrow> (Inl err, cleanUp dir (tempGifPath t))
      | None \<Rightarrow>
         (let dir2 = gifRun tools t t' dir gifBuffer numFrames
          in case snd (ffmpeg tools (EveryFifthFrame numFrames) gifBuffer) of
               Some err \<Rightarrow> (Inl err, cleanUp dir2 (tempGifPath t))
             | None \<Rightarrow>
                (let (frames, dir3) =
                       readAndUnlink (gifFrameFiles (dirOrder tools) dir2 numFrames) dir2
                 in (Inr frames, cleanUp dir3 (tempGifPath t)))))"

text \<open>
  \<open>analyzeVideo\<close> and \<open>analyzeGif\<close>, the callers: the buffer may be \<open>null\<close>; whatever the
  extractor or the vision request throws is caught and gives \<open>null\<close>, as do an empty list
  of frames and an answer that does not parse.  The frames go to the service as data
  URLs, which stand for them here.
\<close>

definition mediaVerdict :: "string \<Rightarrow> string \<Rightarrow> media_result \<Rightarrow> verdict option" where
  "mediaVerdict kind fallback result =
     (if g_flagged result \<and> g_confidence result > double_0_6
      then Some \<lparr>v_type = kind, v_severity = ''high'',
                 v_detail = Media (g_topic result)
                   (if g_description result = [] then fallback else g_description result)
                   (g_confidence result)\<rparr>
      else None)"

definition analyzeVideo ::
  "string \<Rightarrow> openai \<Rightarrow> media_tools \<Rightarrow> int \<Rightarrow> int \<Rightarrow> tmpdir \<Rightarrow> buffer option
     \<Rightarrow> verdict option \<times> tmpdir" where
  "analyzeVideo apiKey ai tools t t' dir videoBuffer =
     (case videoBuffer of
        None \<Rightarrow> (None, dir)
      | Some buf \<Rightarrow>
          if apiKey = [] then (None, dir)
          else case extractVideoFrames tools t t' dir buf 4 of
                 (Inl err, dir') \<Rightarrow> (None, dir')
               | (Inr frames, dir') \<Rightarrow>
                   if length frames = 0 then (None, dir')
                   else case chat_vision ai frames of
                          Inl err \<Rightarrow> (None, dir')
                        | Inr None \<Rightarrow> (None, dir')
                        | Inr (Some result) \<Rightarrow>
                            (mediaVerdict ''sensitive_video'' ''Sensitive video content'' result,
                             dir'))"

definition analyzeGif ::
  "string \<Rightarrow> openai \<Rightarrow> media_tools \<Rightarrow> int \<Rightarrow> int \<Rightarrow> tmpdir \<Rightarrow> buffer option
     \<Rightarrow> verdict option \<times> tmpdir" where
  "analyzeGif apiKey ai tools t t' dir gifBuffer =
     (case gifBuffer of
        None \<Rightarrow> (None, dir)
      | Some buf \<Rightarrow>
          if apiKey = [] then (None, dir)
          else case extractGifFrames tools t t' dir buf 4 of
                 (Inl err, dir') \<Rightarrow> (None, dir')
               | (Inr frames, dir') \<Rightarrow>
                   if length frames = 0 then (None, dir')
                   else case chat_vision ai frames of
                          Inl err \<Rightarrow> (None, dir')
                        | Inr None \<Rightarrow> (None, dir')
                        | Inr (Some result) \<Rightarrow>
                            (mediaVerdict ''sensitive_gif'' ''Sensitive GIF content'' result,
                             dir'))"

text \<open>The error with which the external tools make an extraction impossible, if they
  do: a failed write of the input, a failed \<open>ffprobe\<close>, or, for a video, a failed run
  followed by a failed fallback run.\<close>

definition videoToolsError :: "media_tools \<Rightarrow> buffer \<Rightarrow> nat \<Rightarrow> string option" where
  "videoToolsError tools videoBuffer numFrames =
     (case writeError tools of
        Some err \<Rightarrow> Some err
      | None \<Rightarrow>
         (case ffprobe tools videoBuffer of
            Inl err \<Rightarrow> Some err
          | Inr d \<Rightarrow>
             (case snd (ffmpeg tools (AtTimestamps (if d = 0 then 5 else d) numFrames) videoBuffer) of
                None \<Rightarrow> None
              | Some err \<Rightarrow>
                  snd (ffmpeg tools (FixedInterval (if d = 0 then 5 else d) numFrames) videoBuffer))))"

definition gifToolsError :: "media_tools \<Rightarrow> buffer \<Rightarrow> nat \<Rightarrow> string option" where
  "gifToolsError tools gifBuffer numFrames =
     (case writeError tools of
        Some err \<Rightarrow> Some err
      | None \<Rightarrow> snd (ffmpeg tools (EveryFifthFrame numFrames) gifBuffer))"

section \<open>Observations on results\<close>

text \<open>The \<open>type\<close> and the \<open>severity\<close> of a result that may be \<open>null\<close>.\<close>

definition verdictType :: "verdict option \<Rightarrow> string option" where
  "verdictType r = map_option v_type r"

definition verdictSeverity :: "verdict option \<Rightarrow> string option" where
  "verdictSeverity r = map_option v_severity r"

text \<open>The message gets past the length, link and caps checks of \<open>checkSimpleSpam\<close>.\<close>

definition reachesRepeatCheck :: "string \<Rightarrow> bool" where
  "reachesRepeatCheck message =
     (length message \<ge> 5 \<and> countLinks message \<le> maxLinks \<and> \<not> excessiveCaps message)"

text \<open>The count the repeat check arrives at for a normalized text: one more than the
  count of a cache entry that is still inside the window and holds the same text, and 1
  in every other case.\<close>

definition streak :: "int \<Rightarrow> cache \<Rightarrow> string \<Rightarrow> string \<Rightarrow> nat" where
  "streak now recentMessages key messageHash =
     (case recentMessages key of
        None \<Rightarrow> 1
      | Some d \<Rightarrow>
          if now - e_lastTime d > repeatWindow then 1
          else if e_message d = messageHash then e_count d + 1 else 1)"


section \<open>Example states\<close>

text \<open>The database after a call of \<open>addPendingCaptcha\<close>: the one it has written, or the
  one it was given when the call threw.\<close>

definition afterAddPendingCaptcha ::
  "nat \<Rightarrow> database \<Rightarrow> string \<Rightarrow> string \<Rightarrow> string \<Rightarrow> nat \<Rightarrow> database" where
  "afterAddPendingCaptcha now db phone groupId captchaCode timeoutMinutes =
     (case addPendingCaptcha now db phone groupId captchaCode timeoutMinutes of
        Inl err \<Rightarrow> db
      | Inr db' \<Rightarrow> db')"

text \<open>A database with one pending challenge, issued at second 1000 with a timeout of
  five minutes, so that it expires at second 1300.\<close>

definition example_db :: database where
  "example_db = afterAddPendingCaptcha 1000 init ''31600000001'' ''g1@g.us'' ''k7m2q'' 5"

text \<open>Three challenges, expiring at seconds 1300, 1310 and 1500, and a transport that
  refuses the removal in the first group.\<close>

definition example_db3 :: database where
  "example_db3 =
     afterAddPendingCaptcha 1200 (afterAddPendingCaptcha 1010 example_db
       ''31600000002'' ''g2@g.us'' ''abcde'' 5) ''31600000003'' ''g2@g.us'' ''fghij'' 5"

definition example_sock :: sock where
  "example_sock =
     \<lparr>groupMetadata = (\<lambda>g. if g = ''g1@g.us'' then Inr ''Test Group'' else Inl ''item-not-found''),
      sendMessage = (\<lambda>g c. Inr ()),
      groupParticipantsUpdate =
        (\<lambda>g js a. if g = ''g1@g.us'' then Inl ''not-authorized'' else Inr ())\<rparr>"

text \<open>A phone verified in one group, and then in a second one.\<close>

definition verified_in_A :: database where
  "verified_in_A = markUserVerified id 100 init ''31600000001'' ''groupA@g.us''"

definition verified_in_B :: database where
  "verified_in_B =
     snd (checkVerificationAnswer id 260
       (afterAddPendingCaptcha 200 verified_in_A ''31600000001'' ''groupB@g.us'' ''k7m2q'' 5)
       ''31600000001@s.whatsapp.net'' ''k7m2q'' ''groupB@g.us'' ''Group B'')"

text \<open>The same phone challenged once more in the first group.\<close>

definition challenged_in_A :: database where
  "challenged_in_A =
     afterAddPendingCaptcha 300 verified_in_B ''31600000001'' ''groupA@g.us'' ''zzzzz'' 5"

text \<open>A transport that is connected but cannot deliver.\<close>

definition closed_sock :: sock where
  "closed_sock =
     \<lparr>groupMetadata = (\<lambda>g. Inl ''Connection Closed''),
      sendMessage = (\<lambda>g c. Inl ''Connection Closed''),
      groupParticipantsUpdate = (\<lambda>g js a. Inl ''Connection Closed'')\<rparr>"

text \<open>A ledger with one entry, not restored.\<close>

definition example_ledger :: database where
  "example_ledger =
     snd (logModeration id 500 init
       \<lparr>d_groupId = ''g1@g.us'', d_userPhone = ''31600000001'', d_userName = Some ''Ann'',
        d_messageBody = ''BUY NOW BUY NOW'', d_violationType = ''excessive_caps'',
        d_actionTaken = ''deleted'', d_categoryScores = None, d_messageKey = None\<rparr>)"

text \<open>A cache holding one entry of another sender, last seen at millisecond 0.\<close>

definition example_cache :: cache where
  "example_cache = Map.empty(''31600000009:g1@g.us'' \<mapsto>
     \<lparr>e_message = ''old news'', e_count = 2, e_lastTime = 0\<rparr>)"

text \<open>The same text sent three times by one sender in one group: a text of four
  characters, and a text of eight in three spellings.\<close>

definition spam_run1 :: "verdict option \<times> cache" where
  "spam_run1 = checkSimpleSpam 0 Map.empty ''spam'' ''31600000001'' ''g1@g.us''"

definition spam_run2 :: "verdict option \<times> cache" where
  "spam_run2 = checkSimpleSpam 1000 (snd spam_run1) ''spam'' ''31600000001'' ''g1@g.us''"

definition spam_run3 :: "verdict option \<times> cache" where
  "spam_run3 = checkSimpleSpam 2000 (snd spam_run2) ''spam'' ''31600000001'' ''g1@g.us''"




text \<open>A classification service that flags no text as toxic and every text as
  political, with confidence 0.9.\<close>

definition example_openai :: openai where
  "example_openai =
     \<lparr>moderations_create =
        (\<lambda>input. Inr \<lparr>m_flagged = False, m_categories = [(''hate'', False)],
                         m_category_scores = [(''hate'', 1 / 100)]\<rparr>),
      chat_text =
        (\<lambda>input. Inr (Some \<lparr>t_flagged = True, t_topic = ''politics'', t_confidence = 9 / 10\<rparr>)),
      chat_vision = (\<lambda>frames. Inl ''timeout'')\<rparr>"

text \<open>Tools that cannot read the input at all; tools whose first run on a video
  fails after one frame while the fallback run and the GIF run succeed, on a file system
  that lists the newest file first; and tools whose every run writes its first frame and
  then fails, as on an input that is cut off after its first picture.\<close>

definition broken_tools :: media_tools where
  "broken_tools =
     \<lparr>writeError = None,
      ffprobe = (\<lambda>input. Inl ''Invalid data found when processing input''),
      ffmpeg = (\<lambda>run input. ([], Some ''ffmpeg exited with code 1'')),
      dirOrder = (\<lambda>names. names)\<rparr>"

definition fallback_tools :: media_tools where
  "fallback_tools =
     \<lparr>writeError = None,
      ffprobe = (\<lambda>input. Inr 8),
      ffmpeg = (\<lambda>run input.
        case run of
          AtTimestamps d n \<Rightarrow> ([''partial''], Some ''ffmpeg exited with code 1'')
        | FixedInterval d n \<Rightarrow> ([''f1'', ''f2''], None)
        | EveryFifthFrame n \<Rightarrow> ([''g1'', ''g2'', ''g3'', ''g4''], None)),
      dirOrder = rev\<rparr>"

definition truncating_tools :: media_tools where
  "truncating_tools =
     \<lparr>writeError = None,
      ffprobe = (\<lambda>input. Inr 8),
      ffmpeg = (\<lambda>run input. ([''first picture''], Some ''ffmpeg exited with code 1'')),
      dirOrder = (\<lambda>names. names)\<rparr>"

section \<open>Properties of the verification store\<close>

lemma find_filter_append_key:
  "find P (filter (\<lambda>r. \<not> K r) xs @ [x]) = (if P x then Some x else None)"
  if "\<And>r. P r \<Longrightarrow> K r"
  using that by (induction xs) auto

lemma find_Some_member: "find P xs = Some x \<Longrightarrow> x \<in> set xs \<and> P x"
  by (induction xs) (auto split: if_splits)

text \<open>The record written for a challenge is the only one of its key.\<close>

lemma addPendingCaptcha_rows:
  assumes "captchaCode \<noteq> []" and "int t0 + 60 * int T \<le> maxDatetime"
  shows "\<exists>db'. addPendingCaptcha t0 db phone groupId captchaCode T = Inr db'
           \<and> pending_verifications db' =
               filter (\<lambda>r. \<not> (p_phone r = phone \<and> p_group_id r = groupId))
                 (pending_verifications db)
               @ [\<lparr>p_id = pending_seq db + 1, p_phone = phone, p_group_id = groupId,
                    p_expected_answer = Some 0, p_captcha_code = Some (toUpperCase captchaCode),
                    p_created_at = t0, p_expires_at = t0 + 60 * T\<rparr>]"
  using assms by (simp add: addPendingCaptcha_def datetimePlusMinutes_def)

text \<open>No record is created when the expiry would be a date SQLite cannot write: the
  call throws and there is no new state.\<close>

lemma addPendingCaptcha_beyond_last_date:
  assumes "captchaCode \<noteq> []" and "maxDatetime < int t0 + 60 * int T"
  shows "addPendingCaptcha t0 db phone groupId captchaCode T = Inl expiresAtNull"
  using assms by (simp add: addPendingCaptcha_def datetimePlusMinutes_def)

text \<open>A timeout of five thousand million minutes, set at a time in the year 2025: the
  challenge is not stored, and \<open>startVerification\<close> ends with the error of the store
  before anything is sent.\<close>

lemma challenge_beyond_last_date:
  "addPendingCaptcha 1762128000 example_db ''31600000001'' ''g1@g.us'' ''zzzzz'' 5000000000
     = Inl ''NOT NULL constraint failed: pending_verifications.expires_at''"
  using addPendingCaptcha_beyond_last_date[of "''zzzzz''" 1762128000 5000000000 example_db
          "''31600000001''" "''g1@g.us''"]
  by (simp add: maxDatetime_def expiresAtNull_def)

lemma startVerification_beyond_last_date:
  "startVerification sk 5000000000 1762128000 (Inr (''zzzzz'', ''png'')) init
     groupId groupName userJid
     = Inl ''NOT NULL constraint failed: pending_verifications.expires_at''"
  using addPendingCaptcha_beyond_last_date[of "''zzzzz''" 1762128000 5000000000 init
          "jidToPhone userJid" groupId]
  by (simp add: startVerification_def maxDatetime_def expiresAtNull_def isUserVerified_def
        init_def)

lemma pending_not_expired:
  "getPendingVerification now db phone groupId = Some r
   \<Longrightarrow> r \<notin> set (getExpiredVerifications now db)"
proof -
  assume "getPendingVerification now db phone groupId = Some r"
  then have "now < p_expires_at r"
    using find_Some_member[of "\<lambda>r. p_phone r = phone \<and> p_group_id r = groupId \<and> p_expires_at r > now"
            "pending_verifications db" r]
    by (simp add: getPendingVerification_def)
  then show ?thesis
    by (simp add: getExpiredVerifications_def)
qed

text \<open>
  Claim C7.  A challenge with a code, created at \<open>t0\<close> with a timeout of \<open>T\<close> minutes, its
  expiry a date the store can write, leaves one record for its (phone, group) key,
  created at \<open>t0\<close> and expiring at \<open>t0 + 60 * T\<close> seconds.  At every time \<open>now\<close> the pending
  lookup returns that record exactly while \<open>now < created_at + T\<close>, and nothing otherwise;
  the record is in the expired set exactly from that instant on; and a record that the
  lookup returns at some time is not in the expired set at that time.
\<close>

theorem pending_retrievable_until_expiry:
  assumes "captchaCode \<noteq> []" and "int t0 + 60 * int T \<le> maxDatetime"
  shows "\<exists>db' r. addPendingCaptcha t0 db phone groupId captchaCode T = Inr db'
          \<and> r \<in> set (pending_verifications db')
          \<and> p_phone r = phone \<and> p_group_id r = groupId
          \<and> p_created_at r = t0 \<and> p_expires_at r = t0 + 60 * T
          \<and> (\<forall>now.
                (getPendingVerification now db' phone groupId
                 = (if now < p_created_at r + 60 * T then Some r else None))
              \<and> (r \<in> set (getExpiredVerifications now db')
                  \<longleftrightarrow> \<not> now < p_created_at r + 60 * T)
              \<and> (\<forall>r'. getPendingVerification now db' phone groupId = Some r'
                     \<longrightarrow> r' \<notin> set (getExpiredVerifications now db')))"
proof -
  let ?r = "\<lparr>p_id = pending_seq db + 1, p_phone = phone, p_group_id = groupId,
             p_expected_answer = Some 0, p_captcha_code = Some (toUpperCase captchaCode),
             p_created_at = t0, p_expires_at = t0 + 60 * T\<rparr>"
  obtain db' where db': "addPendingCaptcha t0 db phone groupId captchaCode T = Inr db'"
    and rows: "pending_verifications db' =
      filter (\<lambda>r. \<not> (p_phone r = phone \<and> p_group_id r = groupId))
        (pending_verifications db) @ [?r]"
    using addPendingCaptcha_rows[OF assms] by blast
  have get: "getPendingVerification now db' phone groupId
               = (if now < t0 + 60 * T then Some ?r else None)" for now
    unfolding getPendingVerification_def rows by (subst find_filter_append_key) auto
  have exp: "?r \<in> set (getExpiredVerifications now db') \<longleftrightarrow> \<not> now < t0 + 60 * T" for now
    unfolding getExpiredVerifications_def rows by auto
  have never: "getPendingVerification now db' phone groupId = Some r'
                 \<longrightarrow> r' \<notin> set (getExpiredVerifications now db')" for now r'
    using pending_not_expired by blast
  have "?r \<in> set (pending_verifications db')"
    by (simp add: rows)
  then show ?thesis
    using db' get exp never by (intro exI[of _ db'] exI[of _ ?r]) simp
qed

theorem pending_retrievable_until_expiry_witness:
  "''k7m2q'' \<noteq> []
   \<and> int 1000 + 60 * int 5 \<le> maxDatetime
   \<and> getPendingVerification 1299 example_db ''31600000001'' ''g1@g.us'' \<noteq> None
   \<and> getPendingVerification 1300 example_db ''31600000001'' ''g1@g.us'' = None
   \<and> getExpiredVerifications 1299 example_db = []
   \<and> length (getExpiredVerifications 1300 example_db) = 1"
proof -
  have h: "''k7m2q'' \<noteq> []" by simp
  have h': "int 1000 + 60 * int 5 \<le> maxDatetime" by (simp add: maxDatetime_def)
  from pending_retrievable_until_expiry[OF h h', of init "''31600000001''" "''g1@g.us''"]
  obtain db' r where r:
     "addPendingCaptcha 1000 init ''31600000001'' ''g1@g.us'' ''k7m2q'' 5 = Inr db'"
     "p_created_at r = 1000"
     "\<forall>now. getPendingVerification now db' ''31600000001'' ''g1@g.us''
              = (if now < p_created_at r + 60 * 5 then Some r else None)"
    by blast
  have db: "example_db = db'"
    using r(1) by (simp add: example_db_def afterAddPendingCaptcha_def)
  have a: "getPendingVerification 1299 example_db ''31600000001'' ''g1@g.us'' \<noteq> None"
    using r(2,3) db by simp
  have b: "getPendingVerification 1300 example_db ''31600000001'' ''g1@g.us'' = None"
    using r(2,3) db by simp
  have c: "getExpiredVerifications 1299 example_db = []"
    by code_simp
  have d: "length (getExpiredVerifications 1300 example_db) = 1"
    by code_simp
  show ?thesis using h h' a b c d by simp
qed

text \<open>
  Claim C9.  When every pending record of the sender's (phone, group) key has
  \<open>expires_at \<le> now\<close>, \<open>checkVerificationAnswer\<close> returns \<open>null\<close> and leaves the whole
  database, the pending and the verified store with it, as it was, whatever the text:
  the lookup itself filters on the expiry, before any sweep has deleted the record.
\<close>

theorem expired_answer_rejected:
  assumes "\<forall>r \<in> set (pending_verifications db).
             p_phone r = jidToPhone senderJid \<and> p_group_id r = groupId
               \<longrightarrow> p_expires_at r \<le> now"
  shows "checkVerificationAnswer hashPhone now db senderJid messageText groupId groupName
           = (None, db)"
proof -
  have "getPendingVerification now db (jidToPhone senderJid) groupId = None"
    using assms by (auto simp: getPendingVerification_def find_None_iff)
  then show ?thesis by (simp add: checkVerificationAnswer_def)
qed

text \<open>One second before the expiry the stored code, in any case, still verifies.\<close>

lemma example_answer_in_time:
  "fst (checkVerificationAnswer id 1299 example_db ''31600000001@s.whatsapp.net''
          '' K7m2q '' ''g1@g.us'' ''Test Group'')
     = Some \<lparr>a_success = True, a_message = Text En Success, a_phone = ''31600000001''\<rparr>"
  by code_simp

theorem expired_answer_rejected_witness:
  "map p_expires_at (pending_verifications example_db) = [1300]
   \<and> map p_captcha_code (pending_verifications example_db) = [Some (map Latin ''K7M2Q'')]
   \<and> checkVerificationAnswer id 1300 example_db ''31600000001@s.whatsapp.net'' ''K7M2Q''
        ''g1@g.us'' ''Test Group''
       = (None, example_db)"
proof -
  have h: "\<forall>r \<in> set (pending_verifications example_db).
       p_phone r = jidToPhone ''31600000001@s.whatsapp.net'' \<and> p_group_id r = ''g1@g.us''
         \<longrightarrow> p_expires_at r \<le> 1300"
    by code_simp
  have c: "map p_expires_at (pending_verifications example_db) = [1300]"
    "map p_captcha_code (pending_verifications example_db) = [Some (map Latin ''K7M2Q'')]"
    by code_simp+
  show ?thesis
    using c expired_answer_rejected[OF h, of id "''K7M2Q''" "''Test Group''"] by simp
qed

text \<open>The schema keeps one \<open>verified_users\<close> row per phone, whatever the group.\<close>

lemma markUserVerified_one_row_per_phone:
  "length (filter (\<lambda>r. v_phone r = phone)
     (verified_users (markUserVerified hashPhone now db phone groupId))) = 1"
  by (simp add: markUserVerified_def)

lemma markUserVerified_other_phone:
  "phone' \<noteq> phone \<Longrightarrow>
   filter (\<lambda>r. v_phone r = phone') (verified_users (markUserVerified hashPhone now db phone groupId))
   = filter (\<lambda>r. v_phone r = phone') (verified_users db)"
  by (auto simp: markUserVerified_def intro: filter_cong)

text \<open>So a phone that becomes verified in one group is, from then on, verified in no
  other group.\<close>

lemma markUserVerified_forgets_other_groups:
  assumes "groupId' \<noteq> groupId"
  shows "\<not> isUserVerified (markUserVerified hashPhone now db phone groupId) phone groupId'"
proof -
  have "find (\<lambda>r. v_phone r = phone \<and> v_group_id r = groupId')
          (filter (\<lambda>r. v_phone r \<noteq> phone) rows @ [row]) = None"
    if "v_group_id row \<noteq> groupId'" for rows row
    using that by (induction rows) auto
  from this[of "\<lparr>v_id = verified_seq db + 1, v_phone = phone, v_hashed_phone = hashPhone phone,
                  v_group_id = groupId, v_verified_at = now\<rparr>" "verified_users db"]
  show ?thesis
    using assms by (simp add: isUserVerified_def markUserVerified_def)
qed

text \<open>
  Claim C1.  The claim is that a verified record, once present for a (phone, group) pair,
  persists, and that no further challenge is issued for the pair, also when the same phone
  becomes verified in a different group.  The code at a concrete run: the phone is
  verified in group A, and a join in A issues no challenge; the phone then answers its
  challenge in group B; \<open>INSERT OR REPLACE\<close> under \<open>phone TEXT UNIQUE\<close> has replaced the
  record of A, the phone is no longer verified in A, and the next join in A creates a
  pending record and sends a challenge.
\<close>

theorem verified_record_replaced_by_other_group:
  "isUserVerified verified_in_A ''31600000001'' ''groupA@g.us''
   \<and> startVerification example_sock 5 150 (Inr (''zzzzz'', ''png'')) verified_in_A
        ''groupA@g.us'' ''Group A'' ''31600000001@s.whatsapp.net'' = Inr (verified_in_A, [])
   \<and> map v_group_id (verified_users verified_in_B) = [''groupB@g.us'']
   \<and> \<not> isUserVerified verified_in_B ''31600000001'' ''groupA@g.us''
   \<and> startVerification example_sock 5 300 (Inr (''zzzzz'', ''png'')) verified_in_B
        ''groupA@g.us'' ''Group A'' ''31600000001@s.whatsapp.net''
      = Inr (challenged_in_A,
             [SendMessage ''groupA@g.us'' (CaptchaImage ''png'' En (Welcome 5))])
   \<and> addPendingCaptcha 300 verified_in_B ''31600000001'' ''groupA@g.us'' ''zzzzz'' 5
      = Inr challenged_in_A
   \<and> map (\<lambda>r. (p_phone r, p_group_id r, p_expires_at r)) (pending_verifications challenged_in_A)
      = [(''31600000001'', ''groupA@g.us'', 600)]"
  by code_simp

section \<open>Properties of the expiry sweep\<close>

lemma processAll_calls:
  "filter isRemoval (fst (processAll sk rs)) =
     map (\<lambda>r. GroupParticipantsUpdate (p_group_id r) [participantJid (p_phone r)] ''remove'') rs"
  by (induction rs) (auto simp: processOne_def Let_def split: prod.splits)

lemma processAll_kicked:
  "snd (processAll sk rs) =
     map (\<lambda>r. \<lparr>k_phone = p_phone r, k_groupId = p_group_id r\<rparr>)
       (filter (\<lambda>r. \<not> isl (groupParticipantsUpdate sk (p_group_id r)
                               [participantJid (p_phone r)] ''remove'')) rs)"
  by (induction rs) (auto simp: processOne_def Let_def split: prod.splits sum.splits)

text \<open>
  Claim C6.  In one run of the sweep the removal calls made are, in order, exactly one per
  record that was expired when the run started, whatever the transport answers to any of
  its calls: a failed removal stops nothing.  The users reported as kicked are those whose
  removal succeeded.  After the run no record that was expired at its start is left in
  storage, whether its removal succeeded or failed, no expired record is left at all, and
  the records not yet expired are kept.
\<close>

theorem sweep_one_attempt_each_then_delete:
  assumes "now \<le> now'"
  shows "filter isRemoval (fst (snd (processExpiredVerifications sk now now' db))) =
         map (\<lambda>r. GroupParticipantsUpdate (p_group_id r) [participantJid (p_phone r)] ''remove'')
           (getExpiredVerifications now db)
     \<and> fst (processExpiredVerifications sk now now' db) =
         map (\<lambda>r. \<lparr>k_phone = p_phone r, k_groupId = p_group_id r\<rparr>)
           (filter (\<lambda>r. \<not> isl (groupParticipantsUpdate sk (p_group_id r)
                                   [participantJid (p_phone r)] ''remove''))
              (getExpiredVerifications now db))
     \<and> (\<forall>r \<in> set (getExpiredVerifications now db).
           r \<notin> set (pending_verifications (snd (snd (processExpiredVerifications sk now now' db)))))
     \<and> getExpiredVerifications now' (snd (snd (processExpiredVerifications sk now now' db))) = []
     \<and> pending_verifications (snd (snd (processExpiredVerifications sk now now' db)))
         = filter (\<lambda>r. now' < p_expires_at r) (pending_verifications db)"
proof -
  obtain calls kicked where pa: "processAll sk (getExpiredVerifications now db) = (calls, kicked)"
    by (cases "processAll sk (getExpiredVerifications now db)")
  have res: "processExpiredVerifications sk now now' db
               = (kicked, calls, snd (cleanupExpiredVerifications now' db))"
    by (simp add: processExpiredVerifications_def pa)
  have c: "filter isRemoval calls =
         map (\<lambda>r. GroupParticipantsUpdate (p_group_id r) [participantJid (p_phone r)] ''remove'')
           (getExpiredVerifications now db)"
    using processAll_calls[of sk "getExpiredVerifications now db"] pa by simp
  have k: "kicked = map (\<lambda>r. \<lparr>k_phone = p_phone r, k_groupId = p_group_id r\<rparr>)
         (filter (\<lambda>r. \<not> isl (groupParticipantsUpdate sk (p_group_id r) [participantJid (p_phone r)] ''remove''))
            (getExpiredVerifications now db))"
    using processAll_kicked[of sk "getExpiredVerifications now db"] pa by simp
  have d: "\<forall>r \<in> set (getExpiredVerifications now db).
             r \<notin> set (pending_verifications (snd (cleanupExpiredVerifications now' db)))"
    using assms by (auto simp: getExpiredVerifications_def cleanupExpiredVerifications_def)
  have e: "getExpiredVerifications now' (snd (cleanupExpiredVerifications now' db)) = []"
    by (auto simp: getExpiredVerifications_def cleanupExpiredVerifications_def filter_empty_conv)
  have f: "pending_verifications (snd (cleanupExpiredVerifications now' db))
            = filter (\<lambda>r. now' < p_expires_at r) (pending_verifications db)"
    by (simp add: cleanupExpiredVerifications_def not_le)
  show ?thesis
    unfolding res using c k d e f by simp
qed

theorem sweep_one_attempt_each_then_delete_witness:
  "filter isRemoval (fst (snd (processExpiredVerifications example_sock 1320 1321 example_db3)))
     = [GroupParticipantsUpdate ''g1@g.us'' [''31600000001@s.whatsapp.net''] ''remove'',
        GroupParticipantsUpdate ''g2@g.us'' [''31600000002@s.whatsapp.net''] ''remove'']
   \<and> fst (processExpiredVerifications example_sock 1320 1321 example_db3)
     = [\<lparr>k_phone = ''31600000002'', k_groupId = ''g2@g.us''\<rparr>]
   \<and> map p_phone (pending_verifications
        (snd (snd (processExpiredVerifications example_sock 1320 1321 example_db3))))
     = [''31600000003'']"
proof -
  have h: "(1320::nat) \<le> 1321" by simp
  have e: "getExpiredVerifications 1320 example_db3 =
     [\<lparr>p_id = 1, p_phone = ''31600000001'', p_group_id = ''g1@g.us'', p_expected_answer = Some 0,
       p_captcha_code = Some (map Latin ''K7M2Q''), p_created_at = 1000, p_expires_at = 1300\<rparr>,
      \<lparr>p_id = 2, p_phone = ''31600000002'', p_group_id = ''g2@g.us'', p_expected_answer = Some 0,
       p_captcha_code = Some (map Latin ''ABCDE''), p_created_at = 1010, p_expires_at = 1310\<rparr>]"
    by code_simp
  have p: "map p_phone (filter (\<lambda>r. 1321 < p_expires_at r) (pending_verifications example_db3))
             = [''31600000003'']"
    by code_simp
  have j: "participantJid ''31600000001'' = ''31600000001@s.whatsapp.net''"
     "participantJid ''31600000002'' = ''31600000002@s.whatsapp.net''"
    by code_simp+
  show ?thesis
    using sweep_one_attempt_each_then_delete[OF h, of example_sock example_db3]
    by (simp add: e p j example_sock_def)
qed

section \<open>Properties of the ledger and the restore endpoint\<close>

lemma find_map_update:
  "find (\<lambda>r. l_id r = i) rs = Some entry \<Longrightarrow>
   find (\<lambda>r. l_id r = i) (map (\<lambda>r. if l_id r = i then r\<lparr>l_restored := 1\<rparr> else r) rs)
     = Some (entry\<lparr>l_restored := 1\<rparr>)"
  by (induction rs) (auto split: if_splits)

lemma getModerationLogById_marked:
  "getModerationLogById db i = Some entry \<Longrightarrow>
   getModerationLogById (markMessageRestored db i) i = Some (entry\<lparr>l_restored := 1\<rparr>)"
  by (simp add: getModerationLogById_def markMessageRestored_def find_map_update)

lemma restoreMessage_already_restored:
  "getModerationLogById db i = Some entry \<Longrightarrow> l_restored entry \<noteq> 0 \<Longrightarrow>
   restoreMessage sk names db (Some i) = (JsonError ''Message already restored'', [], db)"
  by (simp add: restoreMessage_def)

lemma restoreMessage_db_cases:
  "snd (snd (restoreMessage sk names db logId)) = db
   \<or> (\<exists>i. snd (snd (restoreMessage sk names db logId)) = markMessageRestored db i)"
  by (auto simp: restoreMessage_def Let_def split: option.splits sum.splits)

lemma logs_logModeration:
  "\<exists>row. moderation_logs (snd (logModeration h now db d)) = moderation_logs db @ [row]
         \<and> l_id row = moderation_seq db + 1"
  by (simp add: logModeration_def)

lemma seq_logModeration:
  "moderation_seq (snd (logModeration h now db d)) = moderation_seq db + 1"
  by (simp add: logModeration_def)

lemma logs_markMessageRestored:
  "moderation_logs (markMessageRestored db j)
     = map (\<lambda>r. if l_id r = j then r\<lparr>l_restored := 1\<rparr> else r) (moderation_logs db)"
  by (simp add: markMessageRestored_def)

lemma seq_markMessageRestored:
  "moderation_seq (markMessageRestored db j) = moderation_seq db"
  by (simp add: markMessageRestored_def)

lemma logs_updateModerationResponse:
  "moderation_logs (updateModerationResponse db j response)
     = map (\<lambda>r. if l_id r = j then r\<lparr>l_admin_response := Some response\<rparr> else r)
         (moderation_logs db)"
  by (simp add: updateModerationResponse_def)

lemma seq_updateModerationResponse:
  "moderation_seq (updateModerationResponse db j response) = moderation_seq db"
  by (simp add: updateModerationResponse_def)

lemma logs_clearModerationLogs:
  "moderation_logs (snd (clearModerationLogs db)) = []"
  by (simp add: clearModerationLogs_def)

lemma seq_clearModerationLogs:
  "moderation_seq (snd (clearModerationLogs db)) = moderation_seq db"
  by (simp add: clearModerationLogs_def)

lemmas ledger_rows =
  logs_markMessageRestored seq_markMessageRestored
  logs_updateModerationResponse seq_updateModerationResponse
  logs_clearModerationLogs seq_clearModerationLogs seq_logModeration

lemma wf_markMessageRestored:
  "ledger_wf db \<Longrightarrow> ledger_wf (markMessageRestored db j)"
  by (auto simp: ledger_wf_def ledger_rows list_all_iff)

lemma wf_apply_op:
  assumes "ledger_wf db"
  shows "ledger_wf (apply_op db op) \<and> moderation_seq db \<le> moderation_seq (apply_op db op)"
proof (cases op)
  case (LogModeration h now d)
  obtain row where "moderation_logs (snd (logModeration h now db d)) = moderation_logs db @ [row]"
      "l_id row = moderation_seq db + 1"
    using logs_logModeration by blast
  then show ?thesis
    using assms LogModeration by (auto simp: ledger_wf_def seq_logModeration list_all_iff)
next
  case (MarkMessageRestored j)
  then show ?thesis
    using wf_markMessageRestored[OF assms] by (simp add: ledger_rows)
next
  case (UpdateModerationResponse j response)
  then show ?thesis
    using assms by (auto simp: ledger_wf_def ledger_rows list_all_iff)
next
  case ClearModerationLogs
  then show ?thesis
    by (simp add: ledger_wf_def ledger_rows)
next
  case (RestoreMessage sk names logId)
  then show ?thesis
    using restoreMessage_db_cases[of sk names db logId] assms wf_markMessageRestored[OF assms]
    by (auto simp: ledger_rows)
qed

lemma restoredAt_markMessageRestored:
  "restoredAt db i \<Longrightarrow> restoredAt (markMessageRestored db j) i"
  by (auto simp: restoredAt_def ledger_rows list_all_iff)

lemma restoredAt_apply_op:
  assumes "ledger_wf db" "i \<le> moderation_seq db" "restoredAt db i"
  shows "restoredAt (apply_op db op) i"
proof (cases op)
  case (LogModeration h now d)
  obtain row where "moderation_logs (snd (logModeration h now db d)) = moderation_logs db @ [row]"
      "l_id row = moderation_seq db + 1"
    using logs_logModeration by blast
  then show ?thesis
    using assms LogModeration by (auto simp: restoredAt_def list_all_iff)
next
  case (MarkMessageRestored j)
  then show ?thesis
    using restoredAt_markMessageRestored[OF assms(3)] by simp
next
  case (UpdateModerationResponse j response)
  then show ?thesis
    using assms(3) by (auto simp: restoredAt_def ledger_rows list_all_iff)
next
  case ClearModerationLogs
  then show ?thesis
    by (simp add: restoredAt_def ledger_rows)
next
  case (RestoreMessage sk names logId)
  then show ?thesis
    using restoreMessage_db_cases[of sk names db logId] assms(3)
      restoredAt_markMessageRestored[OF assms(3)]
    by auto
qed

lemma restoredAt_foldl:
  "ledger_wf db \<Longrightarrow> i \<le> moderation_seq db \<Longrightarrow> restoredAt db i
   \<Longrightarrow> restoredAt (foldl apply_op db ops) i"
proof (induction ops arbitrary: db)
  case Nil
  then show ?case by simp
next
  case (Cons op ops)
  have "ledger_wf (apply_op db op)" "i \<le> moderation_seq (apply_op db op)"
    using wf_apply_op[OF Cons.prems(1), of op] Cons.prems(2) by auto
  then show ?case
    using Cons.IH[of "apply_op db op"] restoredAt_apply_op[OF Cons.prems, of op] by simp
qed

lemma restored_rows_marked:
  "list_all (\<lambda>r. l_restored r \<noteq> 0)
     (filter (\<lambda>r. l_id r = i)
        (map (\<lambda>r. if l_id r = i then r\<lparr>l_restored := 1\<rparr> else r) rs))"
  by (induction rs) simp_all

lemma restoredAt_marked: "restoredAt (markMessageRestored db i) i"
  by (simp add: restoredAt_def ledger_rows restored_rows_marked)

lemma found_le_seq:
  assumes "ledger_wf db" "getModerationLogById db i = Some entry"
  shows "i \<le> moderation_seq db"
proof -
  have "entry \<in> set (moderation_logs db) \<and> l_id entry = i"
    using find_Some_member[of "\<lambda>r. l_id r = i" "moderation_logs db" entry] assms(2)
    by (simp add: getModerationLogById_def)
  then show ?thesis
    using assms(1) by (auto simp: ledger_wf_def list_all_iff)
qed

lemma ledger_wf_reachable: "ledger_wf (foldl apply_op init ops)"
proof -
  have "ledger_wf db \<Longrightarrow> ledger_wf (foldl apply_op db ops)" for db
    by (induction ops arbitrary: db) (simp_all add: wf_apply_op)
  moreover have "ledger_wf init"
    by (simp add: ledger_wf_def init_def)
  ultimately show ?thesis by blast
qed

text \<open>
  Claim C8, as the code has it.  The ledger is one whose keys came from its counter, as
  every ledger built by the operations is.  For an entry with \<open>restored = 0\<close>, a restore call
  made while the bot is connected and whose delivery to the group succeeds answers with
  success and sets \<open>restored\<close> to 1.  A call made while the bot is not connected answers
  \<open>Bot not connected\<close>, and a call whose delivery fails answers with the error of the
  transport; both leave the database, and so the entry with \<open>restored = 0\<close>, as it was.
  Once \<open>restored\<close> is set, every restore call on that entry, in whatever state of the
  transport, answers \<open>Message already restored\<close>, makes no call and leaves the database as
  it is; and after any sequence of ledger operations every row with that key still has
  \<open>restored\<close> set.
\<close>

theorem restore_once_then_already_restored:
  assumes wf: "ledger_wf db"
    and found: "getModerationLogById db i = Some entry"
    and fresh: "l_restored entry = 0"
  shows "(\<forall>s names. sendMessage s (l_group_id entry) (restoredMessage entry) = Inr ()
            \<longrightarrow> fst (restoreMessage (Some s) names db (Some i))
                  = JsonSuccess ''Message restored successfully''
                \<and> snd (snd (restoreMessage (Some s) names db (Some i)))
                  = markMessageRestored db i)
       \<and> (\<forall>names. restoreMessage None names db (Some i)
                     = (JsonError ''Bot not connected'', [], db))
       \<and> (\<forall>s names err. sendMessage s (l_group_id entry) (restoredMessage entry) = Inl err
            \<longrightarrow> fst (restoreMessage (Some s) names db (Some i)) = JsonError err
                \<and> snd (snd (restoreMessage (Some s) names db (Some i))) = db)
       \<and> getModerationLogById (markMessageRestored db i) i = Some (entry\<lparr>l_restored := 1\<rparr>)
       \<and> (\<forall>sk' names'. restoreMessage sk' names' (markMessageRestored db i) (Some i)
                          = (JsonError ''Message already restored'', [], markMessageRestored db i))
       \<and> (\<forall>ops. restoredAt (foldl apply_op (markMessageRestored db i) ops) i)"
proof -
  let ?db' = "markMessageRestored db i"
  have le: "i \<le> moderation_seq ?db'"
    using found_le_seq[OF wf found] by (simp add: ledger_rows)
  have first: "fst (restoreMessage (Some s) names db (Some i))
                 = JsonSuccess ''Message restored successfully''
               \<and> snd (snd (restoreMessage (Some s) names db (Some i))) = ?db'"
    if "sendMessage s (l_group_id entry) (restoredMessage entry) = Inr ()" for s names
    using found fresh that by (simp add: restoreMessage_def Let_def)
  have offline: "restoreMessage None names db (Some i)
                   = (JsonError ''Bot not connected'', [], db)" for names
    using found fresh by (simp add: restoreMessage_def)
  have failed: "fst (restoreMessage (Some s) names db (Some i)) = JsonError err
               \<and> snd (snd (restoreMessage (Some s) names db (Some i))) = db"
    if "sendMessage s (l_group_id entry) (restoredMessage entry) = Inl err" for s names err
    using found fresh that by (simp add: restoreMessage_def Let_def)
  have got: "getModerationLogById ?db' i = Some (entry\<lparr>l_restored := 1\<rparr>)"
    by (rule getModerationLogById_marked[OF found])
  have second: "restoreMessage sk' names' ?db' (Some i)
                  = (JsonError ''Message already restored'', [], ?db')" for sk' names'
    by (rule restoreMessage_already_restored[OF got]) simp
  have mono: "restoredAt (foldl apply_op ?db' ops) i" for ops
    by (rule restoredAt_foldl[OF wf_markMessageRestored[OF wf] le restoredAt_marked])
  show ?thesis using first offline failed got second mono by blast
qed

theorem restore_once_then_already_restored_witness:
  "map l_restored (moderation_logs example_ledger) = [0]
   \<and> fst (restoreMessage (Some example_sock) Map.empty example_ledger (Some 1))
       = JsonSuccess ''Message restored successfully''
   \<and> fst (restoreMessage (Some closed_sock) Map.empty example_ledger (Some 1))
       = JsonError ''Connection Closed''
   \<and> snd (snd (restoreMessage (Some closed_sock) Map.empty example_ledger (Some 1)))
       = example_ledger
   \<and> map l_restored (moderation_logs (markMessageRestored example_ledger 1)) = [1]
   \<and> restoreMessage (Some example_sock) Map.empty (markMessageRestored example_ledger 1) (Some 1)
       = (JsonError ''Message already restored'', [], markMessageRestored example_ledger 1)"
proof -
  let ?entry = "\<lparr>l_id = 1, l_timestamp = 500, l_group_id = ''g1@g.us'',
               l_user_phone = ''31600000001'', l_hashed_phone = ''31600000001'',
               l_user_name = Some ''Ann'', l_message_body = ''BUY NOW BUY NOW'',
               l_violation_type = ''excessive_caps'', l_action_taken = ''deleted'',
               l_admin_response = None, l_category_scores = ''{}'',
               l_message_key = None, l_restored = 0\<rparr>"
  have wf: "ledger_wf example_ledger" by code_simp
  have found: "getModerationLogById example_ledger 1 = Some ?entry" by code_simp
  have fresh: "l_restored ?entry = 0" by simp
  have sent: "sendMessage example_sock (l_group_id ?entry) (restoredMessage ?entry) = Inr ()"
    by (simp add: example_sock_def)
  have lost: "sendMessage closed_sock (l_group_id ?entry) (restoredMessage ?entry)
                = Inl ''Connection Closed''"
    by (simp add: closed_sock_def)
  have r0: "map l_restored (moderation_logs example_ledger) = [0]" by code_simp
  have r1: "map l_restored (moderation_logs (markMessageRestored example_ledger 1)) = [1]"
    by code_simp
  note t = restore_once_then_already_restored[OF wf found fresh]
  have a: "fst (restoreMessage (Some example_sock) Map.empty example_ledger (Some 1))
       = JsonSuccess ''Message restored successfully''"
    using t sent by blast
  have f: "fst (restoreMessage (Some closed_sock) Map.empty example_ledger (Some 1))
       = JsonError ''Connection Closed''"
      "snd (snd (restoreMessage (Some closed_sock) Map.empty example_ledger (Some 1)))
       = example_ledger"
    using t lost by blast+
  have b: "restoreMessage (Some example_sock) Map.empty (markMessageRestored example_ledger 1) (Some 1)
       = (JsonError ''Message already restored'', [], markMessageRestored example_ledger 1)"
    using t by blast
  show ?thesis using r0 a f r1 b by blast
qed

text \<open>
  Claim C8 as stated, that the first restore call on an entry with \<open>restored = 0\<close>
  succeeds, fails while the bot is not connected: the call answers
  \<open>Bot not connected\<close> and the entry stays unrestored.
\<close>

theorem first_restore_fails_when_disconnected:
  "map l_restored (moderation_logs example_ledger) = [0]
   \<and> restoreMessage None Map.empty example_ledger (Some 1)
       = (JsonError ''Bot not connected'', [], example_ledger)"
  by code_simp

section \<open>Properties of the heuristic spam detector\<close>

text \<open>A string has fewer than \<open>2^53\<close> code units, and below that bound the comparison of
  the rounded quotient with the double \<open>0.7\<close> agrees with the exact one.\<close>

lemma capsRatioExceeds_exact:
  assumes "n < 2 ^ 53"
  shows "capsRatioExceeds u n = (7 * n < 10 * u)"
proof -
  have "capsRatioExceeds u n = (10 * (12610078956637389 * int n) < 10 * (18014398509481984 * int u))"
    by (simp add: capsRatioExceeds_def)
  also have "\<dots> = (7 * int n < 10 * int u)"
    using assms by (cases "7 * int n < 10 * int u") auto
  also have "\<dots> = (7 * n < 10 * u)"
    by linarith
  finally show ?thesis .
qed

lemma checkSimpleSpam_short:
  "length message < 5 \<Longrightarrow>
   checkSimpleSpam now c message senderPhone groupId = (None, c)"
  by (simp add: checkSimpleSpam_def)

lemma checkSimpleSpam_links:
  "5 \<le> length message \<Longrightarrow> countLinks message > maxLinks \<Longrightarrow>
   checkSimpleSpam now c message senderPhone groupId
     = (Some \<lparr>v_type = ''excessive_links'', v_severity = ''medium'',
               v_detail = LinkCount (countLinks message)\<rparr>, c)"
  by (auto simp: checkSimpleSpam_def)

lemma checkSimpleSpam_caps:
  "5 \<le> length message \<Longrightarrow> countLinks message \<le> maxLinks \<Longrightarrow> excessiveCaps message \<Longrightarrow>
   checkSimpleSpam now c message senderPhone groupId
     = (Some \<lparr>v_type = ''excessive_caps'', v_severity = ''low'',
               v_detail = CapsCount (length (capitals message)) (length (letters message))\<rparr>, c)"
  by (auto simp: checkSimpleSpam_def)

lemma checkSimpleSpam_repeat:
  assumes "reachesRepeatCheck message"
  shows "checkSimpleSpam now c message senderPhone groupId
     = (if streak now c (cacheKey senderPhone groupId) (trim (toLowerCase message)) \<ge> repeatThreshold
        then Some \<lparr>v_type = ''repeated_message'', v_severity = ''medium'',
                   v_detail = RepeatCount
                     (streak now c (cacheKey senderPhone groupId) (trim (toLowerCase message)))\<rparr>
        else None,
        (cleanRecentMessages now c)(cacheKey senderPhone groupId \<mapsto>
           \<lparr>e_message = trim (toLowerCase message),
            e_count = streak now c (cacheKey senderPhone groupId) (trim (toLowerCase message)),
            e_lastTime = now\<rparr>))"
proof -
  have g: "\<not> (message = [] \<or> length message < 5)" "\<not> countLinks message > maxLinks"
      "\<not> excessiveCaps message"
    using assms by (auto simp: reachesRepeatCheck_def)
  show ?thesis
  proof (cases "c (cacheKey senderPhone groupId)")
    case None
    then show ?thesis
      using g by (simp add: checkSimpleSpam_def cleanRecentMessages_def streak_def repeatThreshold_def)
  next
    case (Some d)
    then show ?thesis
      using g by (cases d) (simp add: checkSimpleSpam_def cleanRecentMessages_def streak_def repeatThreshold_def)
  qed
qed

text \<open>
  Claim C2, as the code has it.  For a text of at least 5 characters with at most 3 links,
  the result is an \<open>excessive_caps\<close> verdict exactly when the text has at least 10
  characters (of any kind, not only letters), has a letter, and more than 0.7 of its
  letters are capitals; the verdict then has severity \<open>low\<close>.  A text of the same
  length whose ratio is at most 0.7 gets no such verdict.
\<close>

theorem excessive_caps_iff_ratio:
  assumes "5 \<le> length message" and "countLinks message \<le> 3" and "length message < 2 ^ 53"
  shows "(verdictType (fst (checkSimpleSpam now c message senderPhone groupId))
            = Some ''excessive_caps'')
         = (10 \<le> length message \<and> 0 < length (letters message)
            \<and> 7 * length (letters message) < 10 * length (capitals message))
       \<and> (verdictType (fst (checkSimpleSpam now c message senderPhone groupId))
             = Some ''excessive_caps''
            \<longrightarrow> verdictSeverity (fst (checkSimpleSpam now c message senderPhone groupId))
                  = Some ''low'')"
proof -
  have "length (letters message) \<le> length message"
    by (simp add: letters_def)
  then have ex: "capsRatioExceeds (length (capitals message)) (length (letters message))
             = (7 * length (letters message) < 10 * length (capitals message))"
    using capsRatioExceeds_exact[of "length (letters message)" "length (capitals message)"] assms(3)
    by simp
  have links: "countLinks message \<le> maxLinks"
    using assms(2) by (simp add: maxLinks_def)
  show ?thesis
  proof (cases "excessiveCaps message")
    case True
    then show ?thesis
      using checkSimpleSpam_caps[OF assms(1) links True, of now c senderPhone groupId] ex
      by (simp add: verdictType_def verdictSeverity_def excessiveCaps_def minCapsLength_def)
  next
    case False
    then have "reachesRepeatCheck message"
      using assms(1) links by (simp add: reachesRepeatCheck_def)
    then show ?thesis
      using checkSimpleSpam_repeat[of message now c senderPhone groupId] False ex
      by (auto simp: verdictType_def verdictSeverity_def excessiveCaps_def minCapsLength_def)
  qed
qed

theorem excessive_caps_iff_ratio_witness:
  "verdictType (fst (checkSimpleSpam 0 Map.empty ''THIS IS ALL CAPS TEXT'' ''p'' ''g''))
     = Some ''excessive_caps''
   \<and> verdictSeverity (fst (checkSimpleSpam 0 Map.empty ''THIS IS ALL CAPS TEXT'' ''p'' ''g''))
     = Some ''low''
   \<and> length ''This Is All Caps Text'' = length ''THIS IS ALL CAPS TEXT''
   \<and> verdictType (fst (checkSimpleSpam 0 Map.empty ''This Is All Caps Text'' ''p'' ''g''))
     \<noteq> Some ''excessive_caps''"
proof -
  have a: "5 \<le> length ''THIS IS ALL CAPS TEXT''" "length ''THIS IS ALL CAPS TEXT'' < 2 ^ 53"
      "5 \<le> length ''This Is All Caps Text''" "length ''This Is All Caps Text'' < 2 ^ 53"
    by simp_all
  have l: "countLinks ''THIS IS ALL CAPS TEXT'' \<le> 3" "countLinks ''This Is All Caps Text'' \<le> 3"
    by code_simp+
  have n: "length (letters ''THIS IS ALL CAPS TEXT'') = 17"
      "length (capitals ''THIS IS ALL CAPS TEXT'') = 17"
      "length (letters ''This Is All Caps Text'') = 17"
      "length (capitals ''This Is All Caps Text'') = 5"
    by code_simp+
  show ?thesis
    using excessive_caps_iff_ratio[OF a(1) l(1) a(2), of 0 Map.empty "''p''" "''g''"]
      excessive_caps_iff_ratio[OF a(3) l(2) a(4), of 0 Map.empty "''p''" "''g''"]
    by (simp add: n)
qed

text \<open>
  Claim C2 as stated, that the caps check is evaluated only if the alphabetic length is
  at least 10, fails: the guard is on the length of the whole text.  A text of 11
  characters with 5 letters, all capitals, gets the verdict.
\<close>

theorem caps_check_on_short_alphabetic_text:
  "5 \<le> length ''HELLO 12345'' \<and> countLinks ''HELLO 12345'' = 0
   \<and> length (letters ''HELLO 12345'') = 5
   \<and> fst (checkSimpleSpam 0 Map.empty ''HELLO 12345'' ''p'' ''g'')
       = Some \<lparr>v_type = ''excessive_caps'', v_severity = ''low'', v_detail = CapsCount 5 5\<rparr>"
  by code_simp

text \<open>
  Claim C10.  A call of \<open>checkSimpleSpam\<close> whose message is empty or shorter than 5
  characters, or that returns an \<open>excessive_links\<close> or \<open>excessive_caps\<close> verdict (which
  is when the link or the caps check fires), returns the repeat cache as it received it:
  no entry of any key is created, changed or evicted.
\<close>

theorem early_exit_leaves_cache:
  assumes "message = [] \<or> length message < 5
           \<or> countLinks message > maxLinks \<or> excessiveCaps message
           \<or> verdictType (fst (checkSimpleSpam now c message senderPhone groupId))
                = Some ''excessive_links''
           \<or> verdictType (fst (checkSimpleSpam now c message senderPhone groupId))
                = Some ''excessive_caps''"
  shows "snd (checkSimpleSpam now c message senderPhone groupId) = c"
proof (cases "reachesRepeatCheck message")
  case True
  then have "verdictType (fst (checkSimpleSpam now c message senderPhone groupId))
               \<in> {None, Some ''repeated_message''}"
    by (simp add: checkSimpleSpam_repeat verdictType_def)
  then show ?thesis
    using assms True by (auto simp: reachesRepeatCheck_def)
next
  case False
  then consider "length message < 5" | "5 \<le> length message" "countLinks message > maxLinks"
    | "5 \<le> length message" "countLinks message \<le> maxLinks" "excessiveCaps message"
    unfolding reachesRepeatCheck_def by atomize_elim auto
  then show ?thesis
    by cases (simp_all add: checkSimpleSpam_short checkSimpleSpam_links checkSimpleSpam_caps)
qed

text \<open>A message that reaches the repeat check does evict the stale entry of the
  other sender.\<close>

lemma example_cache_touched:
  "snd (checkSimpleSpam 100000 example_cache ''hello there'' ''31600000001'' ''g1@g.us'')
     ''31600000009:g1@g.us'' = None"
  by code_simp

theorem early_exit_leaves_cache_witness:
  "snd (checkSimpleSpam 100000 example_cache ''THIS IS ALL CAPS TEXT'' ''31600000001'' ''g1@g.us'')
     = example_cache
   \<and> snd (checkSimpleSpam 100000 example_cache ''hey'' ''31600000001'' ''g1@g.us'')
     = example_cache"
proof -
  have a: "verdictType (fst (checkSimpleSpam 100000 example_cache ''THIS IS ALL CAPS TEXT''
                ''31600000001'' ''g1@g.us'')) = Some ''excessive_caps''"
    by code_simp
  have b: "length ''hey'' < 5" by simp
  show ?thesis
    using early_exit_leaves_cache[of "''THIS IS ALL CAPS TEXT''" 100000 example_cache
            "''31600000001''" "''g1@g.us''"]
      early_exit_leaves_cache[of "''hey''" 100000 example_cache "''31600000001''" "''g1@g.us''"]
      a b by blast
qed





text \<open>A text shorter than 5 characters is never evaluated: sent three times within
  two seconds it gets no verdict, and no cache entry is made for it.\<close>

lemma short_text_never_evaluated:
  "trim (toLowerCase ''spam'') = ''spam''
   \<and> fst spam_run1 = None \<and> fst spam_run2 = None \<and> fst spam_run3 = None
   \<and> snd spam_run3 ''31600000001:g1@g.us'' = None"
  by code_simp

section \<open>Properties of the moderation pipeline\<close>

text \<open>What a run of the state machine returns: the stages evaluated are an initial part
  of the list; all but the last of them gave no verdict; a verdict is the answer of the
  last stage evaluated; and without a verdict every stage of the list was evaluated.\<close>

lemma firstVerdict_stops:
  "firstVerdict f ss = (r, tr) \<Longrightarrow>
     (\<exists>rest. ss = tr @ rest)
   \<and> list_all (\<lambda>s. f s = None) (butlast tr)
   \<and> (case r of Some v \<Rightarrow> tr \<noteq> [] \<and> f (last tr) = Some v
               | None \<Rightarrow> tr = ss \<and> list_all (\<lambda>s. f s = None) ss)"
proof (induction ss arbitrary: r tr)
  case Nil
  then show ?case by simp
next
  case (Cons s ss)
  show ?case
  proof (cases "f s")
    case None
    obtain r' tr' where rec: "firstVerdict f ss = (r', tr')"
      by (cases "firstVerdict f ss")
    have eq: "r = r'" "tr = s # tr'"
      using Cons.prems None rec by simp_all
    from Cons.IH[OF rec] show ?thesis
      unfolding eq using None by (cases tr'; cases r') (auto split: option.splits)
  next
    case (Some v)
    then have "r = Some v" "tr = [s]"
      using Cons.prems by simp_all
    then show ?thesis using Some by simp
  qed
qed

text \<open>
  Claim C4, as the code has it.  In the copy of the pipeline whose keyword check is
  disabled (part_000), the text path is the state machine over heuristic-spam, then
  toxic-classify, then, only if the text is longer than 20 characters, topic-classify:
  stages are evaluated in that order, the first verdict is returned, no stage is
  evaluated after it, and the result is \<open>null\<close> when no stage gives one.  In
  src/moderation.js the text path is the same state machine with one more stage, the
  keyword check, between heuristic-spam and toxic-classify.  Both leave the repeat cache
  as the heuristic stage left it.
\<close>

theorem text_path_first_verdict:
  "moderateMessage2 apiKey ai now c message senderPhone groupId
     = (fst (firstVerdict (stageVerdict apiKey ai now c message senderPhone groupId)
               (textStages message)),
        snd (firstVerdict (stageVerdict apiKey ai now c message senderPhone groupId)
               (textStages message)),
        snd (checkSimpleSpam now c message senderPhone groupId))
   \<and> moderateMessage apiKey ai now c message senderPhone groupId
     = (fst (firstVerdict (stageVerdict apiKey ai now c message senderPhone groupId)
               (textStagesWithKeywords message)),
        snd (firstVerdict (stageVerdict apiKey ai now c message senderPhone groupId)
               (textStagesWithKeywords message)),
        snd (checkSimpleSpam now c message senderPhone groupId))"
proof -
  obtain r c' where spam: "checkSimpleSpam now c message senderPhone groupId = (r, c')"
    by (cases "checkSimpleSpam now c message senderPhone groupId")
  have two: "moderateMessage2 apiKey ai now c message senderPhone groupId
     = (fst (firstVerdict (stageVerdict apiKey ai now c message senderPhone groupId)
               (textStages message)),
        snd (firstVerdict (stageVerdict apiKey ai now c message senderPhone groupId)
               (textStages message)), c')"
    by (cases r; cases "checkToxicContent apiKey ai message";
        cases "checkSensitiveContent apiKey ai message")
       (simp_all add: moderateMessage2_def textStages_def spam)
  have one: "moderateMessage apiKey ai now c message senderPhone groupId
     = (fst (firstVerdict (stageVerdict apiKey ai now c message senderPhone groupId)
               (textStagesWithKeywords message)),
        snd (firstVerdict (stageVerdict apiKey ai now c message senderPhone groupId)
               (textStagesWithKeywords message)), c')"
    by (cases r; cases "checkSensitiveKeywords message"; cases "checkToxicContent apiKey ai message";
        cases "checkSensitiveContent apiKey ai message")
       (simp_all add: moderateMessage_def textStagesWithKeywords_def spam)
  show ?thesis
    using one two spam by simp
qed

theorem text_path_first_verdict_witness:
  "moderateMessage2 ''sk-key'' example_openai 0 Map.empty
       ''the election results are in, go vote'' ''p'' ''g''
     = (Some \<lparr>v_type = ''sensitive_topic'', v_severity = ''high'',
               v_detail = Topic ''politics'' (9 / 10)\<rparr>,
        [CheckSimpleSpam, CheckToxicContent, CheckSensitiveContent],
        snd (checkSimpleSpam 0 Map.empty ''the election results are in, go vote'' ''p'' ''g''))"
proof -
  have a: "firstVerdict (stageVerdict ''sk-key'' example_openai 0 Map.empty
              ''the election results are in, go vote'' ''p'' ''g'')
            (textStages ''the election results are in, go vote'')
          = (Some \<lparr>v_type = ''sensitive_topic'', v_severity = ''high'',
               v_detail = Topic ''politics'' (9 / 10)\<rparr>,
             [CheckSimpleSpam, CheckToxicContent, CheckSensitiveContent])"
    by code_simp
  show ?thesis
    using text_path_first_verdict[of "''sk-key''" example_openai 0 Map.empty
        "''the election results are in, go vote''" "''p''" "''g''"]
    by (simp add: a)
qed

text \<open>
  Claim C4 as stated, that the stages are exactly heuristic-spam, toxic-classify and
  topic-classify, fails on src/moderation.js: a text that names a sensitive topic gets
  its verdict from the keyword check, after which the toxic check is not called.  The
  copy with the keyword check disabled goes on to the toxic check.
\<close>

theorem keyword_stage_in_text_path:
  "fst (moderateMessage ''sk-key'' example_openai 0 Map.empty ''see you at church'' ''p'' ''g'')
     = Some \<lparr>v_type = ''sensitive_topic'', v_severity = ''high'',
             v_detail = MatchedTopics [''church'']\<rparr>
   \<and> fst (snd (moderateMessage ''sk-key'' example_openai 0 Map.empty ''see you at church'' ''p'' ''g''))
     = [CheckSimpleSpam, CheckSensitiveKeywords]
   \<and> fst (moderateMessage2 ''sk-key'' example_openai 0 Map.empty ''see you at church'' ''p'' ''g'')
     = None
   \<and> fst (snd (moderateMessage2 ''sk-key'' example_openai 0 Map.empty ''see you at church'' ''p'' ''g''))
     = [CheckSimpleSpam, CheckToxicContent]"
  by code_simp

section \<open>Properties of the media frame extractor\<close>

lemma map_of_unlinked: "map_of (filter (\<lambda>(n, b). n \<noteq> p) dir) p = None"
  by (induction dir) auto

lemma not_exists_cleanUp: "\<not> existsSync (cleanUp dir p) p"
  by (simp add: cleanUp_def existsSync_def unlinkSync_def map_of_unlinked)

lemma names_cleanUp: "fst ` set (cleanUp dir p) \<subseteq> fst ` set dir"
  by (auto simp: cleanUp_def unlinkSync_def)

lemma unlink_absent: "map_of dir f = None \<Longrightarrow> filter (\<lambda>(n, b). n \<noteq> f) dir = dir"
  by (induction dir) (auto split: if_splits)

lemma snd_readAndUnlink:
  "snd (readAndUnlink files dir) = filter (\<lambda>(n, b). n \<notin> set files) dir"
proof (induction files arbitrary: dir)
  case Nil
  then show ?case by simp
next
  case (Cons f files)
  show ?case
  proof (cases "map_of dir f")
    case None
    have "filter (\<lambda>(n, b). n \<notin> set (f # files)) dir
            = filter (\<lambda>(n, b). n \<notin> set files) (filter (\<lambda>(n, b). n \<noteq> f) dir)"
      by (induction dir) auto
    then show ?thesis
      using None Cons.IH[of dir] by (simp add: readFileSync_def unlink_absent)
  next
    case (Some b)
    have "filter (\<lambda>(n, b). n \<notin> set (f # files)) dir
            = filter (\<lambda>(n, b). n \<notin> set files) (filter (\<lambda>(n, b). n \<noteq> f) dir)"
      by (induction dir) auto
    then show ?thesis
      using Some Cons.IH[of "unlinkSync dir f"] by (simp add: readFileSync_def unlinkSync_def)
  qed
qed

lemma read_files_gone:
  "f \<in> set files \<Longrightarrow> \<not> existsSync (cleanUp (snd (readAndUnlink files dir)) p) f"
proof -
  assume f: "f \<in> set files"
  have "f \<notin> fst ` set (snd (readAndUnlink files dir))"
    using f by (auto simp: snd_readAndUnlink)
  then have "f \<notin> fst ` set (cleanUp (snd (readAndUnlink files dir)) p)"
    using names_cleanUp by blast
  then show ?thesis
    by (simp add: existsSync_def map_of_eq_None_iff)
qed

lemma readVideoFrames_eq:
  "1 \<le> n \<Longrightarrow> readVideoFrames order dir video n
     = (Inr (fst (readAndUnlink (frameFiles order dir) dir)),
        cleanUp (snd (readAndUnlink (frameFiles order dir) dir)) video)"
  by (simp add: readVideoFrames_def split: prod.splits)

lemma readVideoFrames_returns:
  "\<not> isl (fst (readVideoFrames order dir video n))
   \<and> \<not> existsSync (snd (readVideoFrames order dir video n)) video"
  by (simp add: readVideoFrames_def not_exists_cleanUp split: prod.splits)

text \<open>Whatever the order of the listing, as long as it lists every file: when the
  video extractor, asked for at least one frame, returns, no file named \<open>frame_*.jpg\<close>
  is left.\<close>

lemma readVideoFrames_result:
  assumes "1 \<le> n"
    and lists: "\<And>names. set (order names) = set names"
    and lists': "\<And>names. set (order' names) = set names"
  shows "frameFiles order' (snd (readVideoFrames order dir video n)) = []"
proof -
  let ?final = "cleanUp (snd (readAndUnlink (frameFiles order dir) dir)) video"
  have "fst ` set (snd (readAndUnlink (frameFiles order dir) dir))
          \<subseteq> fst ` set dir - set (frameFiles order dir)"
    by (auto simp: snd_readAndUnlink)
  then have sub: "fst ` set ?final \<subseteq> fst ` set dir - set (frameFiles order dir)"
    using names_cleanUp[of "snd (readAndUnlink (frameFiles order dir) dir)" video] by blast
  have "f \<notin> set (frameFiles order' ?final)" for f
  proof
    assume "f \<in> set (frameFiles order' ?final)"
    then have "f \<in> fst ` set ?final" "startsWith f ''frame_'' \<and> endsWith f ''.jpg''"
      by (simp_all add: frameFiles_def readdirSync_def lists')
    then have "f \<in> fst ` set dir" "f \<notin> set (frameFiles order dir)"
        "startsWith f ''frame_'' \<and> endsWith f ''.jpg''"
      using sub by auto
    then show False
      by (simp add: frameFiles_def readdirSync_def lists)
  qed
  then have "frameFiles order' ?final = []"
    by (cases "frameFiles order' ?final") auto
  then show ?thesis
    by (simp add: readVideoFrames_eq[OF assms(1)])
qed

lemma extractVideoFrames_cases:
  "(case videoToolsError tools buf n of
      Some err \<Rightarrow>
        fst (extractVideoFrames tools t t' dir buf n) = Inl err
        \<and> (\<exists>d. snd (extractVideoFrames tools t t' dir buf n) = cleanUp d (tempVideoPath t))
    | None \<Rightarrow>
        (\<exists>d. extractVideoFrames tools t t' dir buf n
               = readVideoFrames (dirOrder tools) d (tempVideoPath t) n))"
  by (auto simp: videoToolsError_def extractVideoFrames_def Let_def
           split: option.splits sum.splits prod.splits)

lemma extractGifFrames_cases:
  "(case gifToolsError tools buf n of
      Some err \<Rightarrow>
        fst (extractGifFrames tools t t' dir buf n) = Inl err
        \<and> (\<exists>d. snd (extractGifFrames tools t t' dir buf n) = cleanUp d (tempGifPath t))
    | None \<Rightarrow>
        extractGifFrames tools t t' dir buf n
          = (Inr (fst (readAndUnlink
                         (gifFrameFiles (dirOrder tools) (gifRun tools t t' dir buf n) n)
                         (gifRun tools t t' dir buf n))),
             cleanUp (snd (readAndUnlink
                         (gifFrameFiles (dirOrder tools) (gifRun tools t t' dir buf n) n)
                         (gifRun tools t t' dir buf n))) (tempGifPath t)))"
  by (auto simp: gifToolsError_def extractGifFrames_def Let_def
           split: option.splits sum.splits prod.splits)

text \<open>
  What the extractors do on every input.  \<open>extractVideoFrames\<close> and \<open>extractGifFrames\<close>
  throw exactly when the external tools make the extraction impossible, and then they
  throw the tools' error: they do not return an empty list.  On every exit path the
  temporary input file is gone when they are left.  When the video extractor, asked for
  at least one frame, returns, no file named \<open>frame_*.jpg\<close> is left in the directory;
  when the GIF extractor returns, every frame file it selected for reading is gone.
  The callers \<open>analyzeVideo\<close> and \<open>analyzeGif\<close> catch the error and return no verdict, as
  they do for an empty list of frames.
\<close>

lemma extractors_throw_after_removing_input:
  assumes lists: "\<And>names. set (dirOrder tools names) = set names"
  shows "(fst (extractVideoFrames tools t t' dir buf n) = Inl err)
      = (videoToolsError tools buf n = Some err)
   \<and> \<not> existsSync (snd (extractVideoFrames tools t t' dir buf n)) (tempVideoPath t)
   \<and> (videoToolsError tools buf n = None \<and> 1 \<le> n
        \<longrightarrow> frameFiles (dirOrder tools) (snd (extractVideoFrames tools t t' dir buf n)) = [])
   \<and> (fst (extractGifFrames tools t t' dir buf n) = Inl err)
      = (gifToolsError tools buf n = Some err)
   \<and> \<not> existsSync (snd (extractGifFrames tools t t' dir buf n)) (tempGifPath t)
   \<and> (gifToolsError tools buf n = None
        \<longrightarrow> list_all (\<lambda>f. \<not> existsSync (snd (extractGifFrames tools t t' dir buf n)) f)
              (gifFrameFiles (dirOrder tools) (gifRun tools t t' dir buf n) n))
   \<and> (videoToolsError tools buf 4 \<noteq> None
        \<longrightarrow> fst (analyzeVideo apiKey ai tools t t' dir (Some buf)) = None)
   \<and> (gifToolsError tools buf 4 \<noteq> None
        \<longrightarrow> fst (analyzeGif apiKey ai tools t t' dir (Some buf)) = None)
   \<and> (fst (extractVideoFrames tools t t' dir buf 4) = Inr []
        \<longrightarrow> fst (analyzeVideo apiKey ai tools t t' dir (Some buf)) = None)
   \<and> (fst (extractGifFrames tools t t' dir buf 4) = Inr []
        \<longrightarrow> fst (analyzeGif apiKey ai tools t t' dir (Some buf)) = None)"
proof -
  have v1: "(fst (extractVideoFrames tools t t' dir buf n) = Inl err)
              = (videoToolsError tools buf n = Some err)"
    using extractVideoFrames_cases[where tools=tools and buf=buf and n=n and t=t and t'=t' and dir=dir]
    using readVideoFrames_returns
    by (cases "videoToolsError tools buf n") (auto simp: isl_def)
  have v2: "\<not> existsSync (snd (extractVideoFrames tools t t' dir buf n)) (tempVideoPath t)"
    using extractVideoFrames_cases[where tools=tools and buf=buf and n=n and t=t and t'=t' and dir=dir]
    by (cases "videoToolsError tools buf n") (auto simp: not_exists_cleanUp readVideoFrames_returns)
  have v3: "frameFiles (dirOrder tools) (snd (extractVideoFrames tools t t' dir buf n)) = []"
    if "videoToolsError tools buf n = None" "1 \<le> n"
    using extractVideoFrames_cases[where tools=tools and buf=buf and n=n and t=t and t'=t' and dir=dir] that
    by (auto simp: readVideoFrames_result[OF that(2) lists lists])
  have g1: "(fst (extractGifFrames tools t t' dir buf n) = Inl err)
              = (gifToolsError tools buf n = Some err)"
    using extractGifFrames_cases[where tools=tools and buf=buf and n=n and t=t and t'=t' and dir=dir]
    by (cases "gifToolsError tools buf n") auto
  have g2: "\<not> existsSync (snd (extractGifFrames tools t t' dir buf n)) (tempGifPath t)"
    using extractGifFrames_cases[where tools=tools and buf=buf and n=n and t=t and t'=t' and dir=dir]
    by (cases "gifToolsError tools buf n") (auto simp: not_exists_cleanUp)
  have g3: "list_all (\<lambda>f. \<not> existsSync (snd (extractGifFrames tools t t' dir buf n)) f)
              (gifFrameFiles (dirOrder tools) (gifRun tools t t' dir buf n) n)"
    if "gifToolsError tools buf n = None"
    using extractGifFrames_cases[where tools=tools and buf=buf and n=n and t=t and t'=t' and dir=dir] that
    by (simp add: list_all_iff read_files_gone)
  have a1: "fst (analyzeVideo apiKey ai tools t t' dir (Some buf)) = None"
    if "videoToolsError tools buf 4 \<noteq> None"
  proof -
    from that obtain e where "videoToolsError tools buf 4 = Some e" by auto
    then have "fst (extractVideoFrames tools t t' dir buf 4) = Inl e"
      using extractVideoFrames_cases[where tools=tools and buf=buf and n=4 and t=t and t'=t' and dir=dir] by simp
    then show ?thesis
      by (cases "extractVideoFrames tools t t' dir buf 4") (simp add: analyzeVideo_def)
  qed
  have a2: "fst (analyzeGif apiKey ai tools t t' dir (Some buf)) = None"
    if "gifToolsError tools buf 4 \<noteq> None"
  proof -
    from that obtain e where "gifToolsError tools buf 4 = Some e" by auto
    then have "fst (extractGifFrames tools t t' dir buf 4) = Inl e"
      using extractGifFrames_cases[where tools=tools and buf=buf and n=4 and t=t and t'=t' and dir=dir] by simp
    then show ?thesis
      by (cases "extractGifFrames tools t t' dir buf 4") (simp add: analyzeGif_def)
  qed
  have e1: "fst (analyzeVideo apiKey ai tools t t' dir (Some buf)) = None"
    if "fst (extractVideoFrames tools t t' dir buf 4) = Inr []"
    using that by (cases "extractVideoFrames tools t t' dir buf 4") (simp add: analyzeVideo_def)
  have e2: "fst (analyzeGif apiKey ai tools t t' dir (Some buf)) = None"
    if "fst (extractGifFrames tools t t' dir buf 4) = Inr []"
    using that by (cases "extractGifFrames tools t t' dir buf 4") (simp add: analyzeGif_def)
  show ?thesis
    using v1 v2 v3 g1 g2 g3 a1 a2 e1 e2 by blast
qed

lemma extractors_throw_examples:
  "extractVideoFrames broken_tools 1700000000000 1700000000001 [] ''not a video'' 4
     = (Inl ''Invalid data found when processing input'', [])
   \<and> extractGifFrames broken_tools 1700000000000 1700000000001 [] ''not a gif'' 4
     = (Inl ''ffmpeg exited with code 1'', [])
   \<and> fst (analyzeVideo ''sk-key'' example_openai broken_tools 1700000000000 1700000000001 []
          (Some ''not a video'')) = None
   \<and> extractVideoFrames fallback_tools 1700000000000 1700000000001
          [(''frame_1_1.jpg'', ''stale'')] ''video'' 4
     = (Inr [''f2'', ''f1'', ''stale''], [])"
  by code_simp

text \<open>
  Claim C3.  The claim is that the extractors return an empty set and never raise when
  extraction is impossible, and that on every exit path they attempt cleanup of all the
  temporary artifacts they created.  The code on an input that is cut off after its first
  picture, so that every run of \<open>ffmpeg\<close> writes its first frame and then fails: each
  extractor throws the error of \<open>ffmpeg\<close>, and of the two files it created, the temporary
  input and the frame, it has removed the input only.  The callers catch the error and
  return no verdict, and the frame file stays in the temporary directory.  The \<open>catch\<close>
  block of each extractor, under its comment \<open>Clean up on error\<close>, unlinks the input
  file, while the path that returns unlinks the frame files as well.
\<close>

theorem failed_extraction_leaves_frames:
  "extractVideoFrames truncating_tools 1700000000000 1700000000001 [] ''cut off video'' 4
     = (Inl ''ffmpeg exited with code 1'',
        [(''frame_1700000000001_1.jpg'', ''first picture'')])
   \<and> extractGifFrames truncating_tools 1700000000000 1700000000001 [] ''cut off gif'' 4
     = (Inl ''ffmpeg exited with code 1'',
        [(''gifframe_1700000000001_1.jpg'', ''first picture'')])
   \<and> analyzeVideo ''sk-key'' example_openai truncating_tools 1700000000000 1700000000001 []
        (Some ''cut off video'')
     = (None, [(''frame_1700000000001_1.jpg'', ''first picture'')])
   \<and> analyzeGif ''sk-key'' example_openai truncating_tools 1700000000000 1700000000001 []
        (Some ''cut off gif'')
     = (None, [(''gifframe_1700000000001_1.jpg'', ''first picture'')])"
  by code_simp

text \<open>A frame file left behind in this way is read by the next extraction, which then
  leaves a frame of its own: the GIF extractor reads the first four files named
  \<open>gifframe_*.jpg\<close>, whichever run wrote them.\<close>

lemma stale_frame_displaces_gif_frame:
  "extractGifFrames fallback_tools 1700000009000 1700000009001
      [(''gifframe_1700000000001_1.jpg'', ''first picture'')] ''gif'' 4
     = (Inr [''first picture'', ''g1'', ''g2'', ''g3''],
        [(''gifframe_1700000009001_4.jpg'', ''g4'')])"
  by code_simp

end
